theory Spec2Isabelle
  imports Complex_Main "HOL-Library.Word"
begin

section \<open>Machine types, the runtime library and the environment\<close>

text \<open>
  The program is a single C++ translation unit. Its \<open>int\<close> is the 32-bit two's complement
  integer of the target: \<open>+\<close>, \<open>-\<close> and unary minus wrap around, \<open>sint\<close> reads the signed
  value. (C++ leaves signed overflow undefined; the model takes the wrap-around the hardware
  performs.) Its \<open>double\<close> is read as a real number, so rounding, infinities and NaN are
  outside the model. \<open>std::string\<close> is \<open>string\<close>.
\<close>

type_synonym cint = "32 word"

datatype error = RuntimeError string | InvalidArgument string | OutOfRange string

text \<open>\<open>e.what()\<close>: the message an exception carries.\<close>

fun what :: "error \<Rightarrow> string" where
  "what (RuntimeError msg) = msg"
| "what (InvalidArgument msg) = msg"
| "what (OutOfRange msg) = msg"

text \<open>Statements in sequence, the first exception ending the sequence.\<close>

definition bind_err :: "error + 'a \<Rightarrow> ('a \<Rightarrow> error + 'b) \<Rightarrow> error + 'b" where
  "bind_err m f = (case m of Inl err \<Rightarrow> Inl err | Inr x \<Rightarrow> f x)"

text \<open>
  The functions of the C++ standard library that the program calls and that are not part
  of the repository: \<open>std::stoi\<close> and \<open>std::stod\<close> (which throw on text that is not a
  number) and the stream insertion of an \<open>int\<close>, of a \<open>double\<close> in the default format and
  of a \<open>double\<close> under \<open>std::fixed << std::setprecision(2)\<close>.
\<close>

record cxxlib =
  stoi :: "string \<Rightarrow> error + cint"
  stod :: "string \<Rightarrow> error + real"
  int_str :: "cint \<Rightarrow> string"
  dbl_str :: "real \<Rightarrow> string"
  fixed2_str :: "real \<Rightarrow> string"

text \<open>
  The environment: the sequence of values \<open>rand()\<close> returns and the sequence of readings
  of the local clock, each with the number of values consumed so far.
\<close>

record env =
  rand_src :: "nat \<Rightarrow> nat"
  rand_pos :: nat
  clock_src :: "nat \<Rightarrow> string"
  clock_pos :: nat

definition getCurrentTimestamp :: "env \<Rightarrow> string \<times> env" where
  "getCurrentTimestamp e = (clock_src e (clock_pos e), e\<lparr>clock_pos := clock_pos e + 1\<rparr>)"

definition alphanum :: string where
  "alphanum = ''0123456789abcdefghijklmnopqrstuvwxyz''"

definition generateHash :: "env \<Rightarrow> string \<times> env" where
  "generateHash e =
     (map (\<lambda>i. alphanum ! (rand_src e (rand_pos e + i) mod 36)) [0..<10],
      e\<lparr>rand_pos := rand_pos e + 10\<rparr>)"

definition calculateDistance :: "real \<Rightarrow> real \<Rightarrow> real \<Rightarrow> real \<Rightarrow> real" where
  "calculateDistance lat1 lon1 lat2 lon2 = sqrt ((lat2 - lat1)\<^sup>2 + (lon2 - lon1)\<^sup>2) * 111"

text \<open>
  \<open>while (std::getline(ss, item, delim)) parts.push_back(item)\<close>: the text is cut at every
  delimiter; a last piece is kept only when it is not empty, so \<open>''a|''\<close> has one part,
  \<open>''|''\<close> has one (empty) part and the empty text has none.
\<close>

fun getline_parts :: "char \<Rightarrow> string \<Rightarrow> string \<Rightarrow> string list" where
  "getline_parts d cur [] = (if cur = [] then [] else [rev cur])"
| "getline_parts d cur (c # cs) =
     (if c = d then rev cur # getline_parts d [] cs else getline_parts d (c # cur) cs)"

definition split_on :: "char \<Rightarrow> string \<Rightarrow> string list" where
  "split_on d str = getline_parts d [] str"

section \<open>Block and Blockchain\<close>

record Block =
  b_blockNumber :: cint
  b_currentHash :: string
  b_previousHash :: string
  b_timestamp :: string
  b_data :: string

text \<open>The constructor reads the clock, then draws the block's own hash.\<close>

definition new_Block :: "cint \<Rightarrow> string \<Rightarrow> string \<Rightarrow> env \<Rightarrow> Block \<times> env" where
  "new_Block blockNum prevHash blockData e =
     (let (ts, e1) = getCurrentTimestamp e;
          (h, e2) = generateHash e1
      in (\<lparr>b_blockNumber = blockNum, b_currentHash = h, b_previousHash = prevHash,
           b_timestamp = ts, b_data = blockData\<rparr>, e2))"

definition Block_deserialize :: "cxxlib \<Rightarrow> string \<Rightarrow> env \<Rightarrow> (error + Block) \<times> env" where
  "Block_deserialize L str e =
     (let parts = split_on CHR ''|'' str in
      if length parts < 5 then (Inl (RuntimeError ''Invalid block data format''), e)
      else case stoi L (parts ! 0) of
             Inl err \<Rightarrow> (Inl err, e)
           | Inr blockNum \<Rightarrow>
               (let (block, e1) = new_Block blockNum (parts ! 2) (parts ! 4) e
                in (Inr (block\<lparr>b_currentHash := parts ! 1, b_timestamp := parts ! 3\<rparr>), e1)))"

record Blockchain =
  chain :: "Block list"

definition createGenesisBlock :: "Blockchain \<Rightarrow> env \<Rightarrow> Blockchain \<times> env" where
  "createGenesisBlock bc e =
     (let (genesisHash, e1) = generateHash e;
          (genesisBlock, e2) = new_Block 0 genesisHash ''Genesis Block'' e1
      in (bc\<lparr>chain := chain bc @ [genesisBlock]\<rparr>, e2))"

definition new_Blockchain :: "env \<Rightarrow> Blockchain \<times> env" where
  "new_Blockchain e = createGenesisBlock \<lparr>chain = []\<rparr> e"

definition getLatestBlock :: "Blockchain \<Rightarrow> error + Block" where
  "getLatestBlock bc =
     (if chain bc = [] then Inl (RuntimeError ''Blockchain is empty'')
      else Inr (last (chain bc)))"

text \<open>\<open>addBlock\<close> logs and rethrows what \<open>getLatestBlock\<close> throws.\<close>

definition addBlock :: "string \<Rightarrow> Blockchain \<Rightarrow> env \<Rightarrow> (error + unit) \<times> Blockchain \<times> env" where
  "addBlock blockData bc e =
     (case getLatestBlock bc of
        Inl err \<Rightarrow> (Inl err, bc, e)
      | Inr latestBlock \<Rightarrow>
          (let (newBlock, e1) =
                 new_Block (b_blockNumber latestBlock + 1) (b_currentHash latestBlock) blockData e
           in (Inr (), bc\<lparr>chain := chain bc @ [newBlock]\<rparr>, e1)))"

text \<open>
  The loop of \<open>isChainValid\<close>, from index 1: \<open>prev\<close> is \<open>chain[i-1]\<close>, the list holds
  \<open>chain[i..]\<close>.
\<close>

fun links_from :: "Block \<Rightarrow> Block list \<Rightarrow> bool" where
  "links_from prev [] = True"
| "links_from prev (b # bs) =
     (if b_previousHash b \<noteq> b_currentHash prev then False else links_from b bs)"

definition isChainValid :: "Blockchain \<Rightarrow> bool" where
  "isChainValid bc = (case chain bc of [] \<Rightarrow> True | b # bs \<Rightarrow> links_from b bs)"

text \<open>
  \<open>loadFromFile\<close>: the file is \<open>None\<close> when it cannot be opened, else its lines. The chain
  is cleared, every line is deserialized and pushed, and the first line that throws makes
  the function return \<open>false\<close> at once.
\<close>

fun loadFromFile_lines :: "cxxlib \<Rightarrow> string list \<Rightarrow> Blockchain \<Rightarrow> env \<Rightarrow> bool \<times> Blockchain \<times> env" where
  "loadFromFile_lines L [] bc e = (True, bc, e)"
| "loadFromFile_lines L (line # rest) bc e =
     (case Block_deserialize L line e of
        (Inl err, e1) \<Rightarrow> (False, bc, e1)
      | (Inr block, e1) \<Rightarrow> loadFromFile_lines L rest (bc\<lparr>chain := chain bc @ [block]\<rparr>) e1)"

definition loadFromFile :: "cxxlib \<Rightarrow> string list option \<Rightarrow> Blockchain \<Rightarrow> env \<Rightarrow> bool \<times> Blockchain \<times> env" where
  "loadFromFile L file bc e =
     (case file of
        None \<Rightarrow> (False, bc, e)
      | Some lines \<Rightarrow>
          (case loadFromFile_lines L lines (bc\<lparr>chain := []\<rparr>) e of
             (False, bc1, e1) \<Rightarrow> (False, bc1, e1)
           | (True, bc1, e1) \<Rightarrow>
               if chain bc1 = [] then (let (bc2, e2) = createGenesisBlock bc1 e1 in (True, bc2, e2))
               else (True, bc1, e1)))"

text \<open>A run of \<open>addBlock\<close> calls, one per payload; an exception ends the run.\<close>

fun addBlocks :: "string list \<Rightarrow> Blockchain \<Rightarrow> env \<Rightarrow> (error + unit) \<times> Blockchain \<times> env" where
  "addBlocks [] bc e = (Inr (), bc, e)"
| "addBlocks (d # ds) bc e =
     (case addBlock d bc e of
        (Inl err, bc1, e1) \<Rightarrow> (Inl err, bc1, e1)
      | (Inr u, bc1, e1) \<Rightarrow> addBlocks ds bc1 e1)"

section \<open>Catalog entities\<close>

record Product =
  p_id :: cint
  p_name :: string
  p_price :: real
  p_stock :: cint

definition updateStock :: "Product \<Rightarrow> cint \<Rightarrow> Product" where
  "updateStock p quantity = p\<lparr>p_stock := p_stock p + quantity\<rparr>"

definition hasEnoughStock :: "Product \<Rightarrow> cint \<Rightarrow> bool" where
  "hasEnoughStock p quantity \<longleftrightarrow> sint (p_stock p) \<ge> sint quantity"

record Supplier =
  s_id :: cint
  s_name :: string
  s_location :: string
  s_branch :: string
  s_latitude :: real
  s_longitude :: real
  s_productIds :: "cint list"

record Retailer =
  r_id :: cint
  r_name :: string
  r_location :: string
  r_latitude :: real
  r_longitude :: real
  r_creditBalance :: real
  r_annualCreditBalance :: real
  r_productIds :: "cint list"

text \<open>\<open>deductCredit\<close> mutates the retailer and returns whether it did.\<close>

definition deductCredit :: "Retailer \<Rightarrow> real \<Rightarrow> bool \<times> Retailer" where
  "deductCredit r amount =
     (if r_creditBalance r \<ge> amount
      then (True, r\<lparr>r_creditBalance := r_creditBalance r - amount,
                    r_annualCreditBalance := r_annualCreditBalance r - amount\<rparr>)
      else (False, r))"

definition addCredit :: "Retailer \<Rightarrow> real \<Rightarrow> Retailer" where
  "addCredit r amount =
     r\<lparr>r_creditBalance := r_creditBalance r + amount,
       r_annualCreditBalance := r_annualCreditBalance r + amount\<rparr>"

record Transporter =
  tr_id :: cint
  tr_name :: string
  tr_transportType :: string
  tr_costPerKm :: real
  tr_maxCapacity :: real

definition calculateTransportCost :: "Transporter \<Rightarrow> real \<Rightarrow> real" where
  "calculateTransportCost t distance = distance * tr_costPerKm t"

record Transaction =
  t_id :: cint
  t_supplierId :: cint
  t_retailerId :: cint
  t_productId :: cint
  t_transporterId :: cint
  t_quantity :: cint
  t_productCost :: real
  t_transportCost :: real
  t_totalCost :: real
  t_timestamp :: string
  t_status :: string
  t_orderType :: string

definition new_Transaction ::
  "cint \<Rightarrow> cint \<Rightarrow> cint \<Rightarrow> cint \<Rightarrow> cint \<Rightarrow> cint \<Rightarrow> env \<Rightarrow> Transaction \<times> env" where
  "new_Transaction transId sId rId pId tId qty e =
     (let (ts, e1) = getCurrentTimestamp e
      in (\<lparr>t_id = transId, t_supplierId = sId, t_retailerId = rId, t_productId = pId,
           t_transporterId = tId, t_quantity = qty, t_productCost = 0, t_transportCost = 0,
           t_totalCost = 0, t_timestamp = ts, t_status = ''Pending'',
           t_orderType = ''Regular''\<rparr>, e1))"

definition calculateTotalCost :: "Transaction \<Rightarrow> Transaction" where
  "calculateTotalCost t = t\<lparr>t_totalCost := t_productCost t + t_transportCost t\<rparr>"

definition getBlockData :: "cxxlib \<Rightarrow> Transaction \<Rightarrow> string" where
  "getBlockData L t =
     ''Transaction ID: '' @ int_str L (t_id t) @
     '' | Supplier ID: '' @ int_str L (t_supplierId t) @
     '' | Retailer ID: '' @ int_str L (t_retailerId t) @
     '' | Product ID: '' @ int_str L (t_productId t) @
     '' | Quantity: '' @ int_str L (t_quantity t) @
     '' | Total Cost: RM'' @ fixed2_str L (t_totalCost t) @
     '' | Timestamp: '' @ t_timestamp t @
     '' | Status: '' @ t_status t @
     '' | Order Type: '' @ t_orderType t"

text \<open>The only contract class of the program is the price ceiling.\<close>

datatype SmartContract = PriceThresholdContract real

fun validate :: "SmartContract \<Rightarrow> Transaction \<Rightarrow> bool" where
  "validate (PriceThresholdContract maxAllowedCost) t \<longleftrightarrow> t_totalCost t \<le> maxAllowedCost"

section \<open>The production planning system\<close>

record PPS =
  products :: "Product list"
  suppliers :: "Supplier list"
  retailers :: "Retailer list"
  transporters :: "Transporter list"
  transactions :: "Transaction list"
  contracts :: "SmartContract list"
  blockchain :: Blockchain
  nextProductId :: cint
  nextSupplierId :: cint
  nextRetailerId :: cint
  nextTransporterId :: cint
  nextTransactionId :: cint

text \<open>
  The \<open>find...\<close> helpers scan a vector for the first element with the id and return a
  pointer to it: here the index of that element, \<open>None\<close> for \<open>nullptr\<close>.
\<close>

fun find_first :: "('a \<Rightarrow> bool) \<Rightarrow> 'a list \<Rightarrow> nat option" where
  "find_first P [] = None"
| "find_first P (x # xs) = (if P x then Some 0 else map_option Suc (find_first P xs))"

definition findProduct :: "PPS \<Rightarrow> cint \<Rightarrow> nat option" where
  "findProduct s ident = find_first (\<lambda>p. p_id p = ident) (products s)"

definition findSupplier :: "PPS \<Rightarrow> cint \<Rightarrow> nat option" where
  "findSupplier s ident = find_first (\<lambda>x. s_id x = ident) (suppliers s)"

definition findRetailer :: "PPS \<Rightarrow> cint \<Rightarrow> nat option" where
  "findRetailer s ident = find_first (\<lambda>r. r_id r = ident) (retailers s)"

definition findTransporter :: "PPS \<Rightarrow> cint \<Rightarrow> nat option" where
  "findTransporter s ident = find_first (\<lambda>t. tr_id t = ident) (transporters s)"

text \<open>The scan of the supplier's product list, and the loop over the contracts.\<close>

fun supplierHasProduct :: "cint list \<Rightarrow> cint \<Rightarrow> bool" where
  "supplierHasProduct [] productId = False"
| "supplierHasProduct (i # ids) productId =
     (if i = productId then True else supplierHasProduct ids productId)"

fun contracts_validate :: "SmartContract list \<Rightarrow> Transaction \<Rightarrow> bool" where
  "contracts_validate [] t = True"
| "contracts_validate (c # cs) t = (if \<not> validate c t then False else contracts_validate cs t)"

text \<open>
  The common end of the three recording paths of \<open>createTransaction\<close>:
  \<open>transactions.push_back(transaction); blockchain.addBlock(prefix + getBlockData());
  return nextTransactionId++;\<close>. When \<open>addBlock\<close> throws, the transaction is already in
  the store and the counter is not advanced.
\<close>

definition record_transaction ::
  "cxxlib \<Rightarrow> string \<Rightarrow> Transaction \<Rightarrow> PPS \<Rightarrow> env \<Rightarrow> (error + cint) \<times> PPS \<times> env" where
  "record_transaction L prefix t s e =
     (let s1 = s\<lparr>transactions := transactions s @ [t]\<rparr> in
      case addBlock (prefix @ getBlockData L t) (blockchain s1) e of
        (Inl err, bc, e1) \<Rightarrow> (Inl err, s1\<lparr>blockchain := bc\<rparr>, e1)
      | (Inr u, bc, e1) \<Rightarrow>
          (Inr (nextTransactionId s1),
           s1\<lparr>blockchain := bc, nextTransactionId := nextTransactionId s1 + 1\<rparr>, e1))"

text \<open>Steps 4 and 5: the costed transaction, as built before the contracts see it.\<close>

definition costed_transaction ::
  "PPS \<Rightarrow> Supplier \<Rightarrow> Retailer \<Rightarrow> Product \<Rightarrow> Transporter \<Rightarrow>
   cint \<Rightarrow> cint \<Rightarrow> cint \<Rightarrow> cint \<Rightarrow> cint \<Rightarrow> string \<Rightarrow> env \<Rightarrow> Transaction \<times> env" where
  "costed_transaction s supplier retailer product transporter
     supplierId retailerId productId transporterId quantity orderType e =
     (let productCost = p_price product * real_of_int (sint quantity);
          distance = calculateDistance (s_latitude supplier) (s_longitude supplier)
                       (r_latitude retailer) (r_longitude retailer);
          transportCost = calculateTransportCost transporter distance;
          (t0, e1) = new_Transaction (nextTransactionId s) supplierId retailerId productId
                       transporterId quantity e;
          t1 = t0\<lparr>t_productCost := productCost\<rparr>;
          t2 = t1\<lparr>t_transportCost := transportCost\<rparr>;
          t3 = calculateTotalCost t2
      in (t3\<lparr>t_orderType := orderType\<rparr>, e1))"

text \<open>The body of the \<open>try\<close> block: \<open>Inl\<close> is a thrown exception.\<close>

definition createTransaction_body ::
  "cxxlib \<Rightarrow> cint \<Rightarrow> cint \<Rightarrow> cint \<Rightarrow> cint \<Rightarrow> cint \<Rightarrow> string \<Rightarrow> PPS \<Rightarrow> env \<Rightarrow>
   (error + cint) \<times> PPS \<times> env" where
  "createTransaction_body L supplierId retailerId productId transporterId quantity orderType s e =
     (case findSupplier s supplierId of
        None \<Rightarrow> (Inl (RuntimeError ''Supplier ID not found''), s, e)
      | Some sidx \<Rightarrow>
     (case findRetailer s retailerId of
        None \<Rightarrow> (Inl (RuntimeError ''Retailer ID not found''), s, e)
      | Some ridx \<Rightarrow>
     (case findProduct s productId of
        None \<Rightarrow> (Inl (RuntimeError ''Product ID not found''), s, e)
      | Some pidx \<Rightarrow>
     (case findTransporter s transporterId of
        None \<Rightarrow> (Inl (RuntimeError ''Transporter ID not found''), s, e)
      | Some tidx \<Rightarrow>
        (let supplier = suppliers s ! sidx;
             retailer = retailers s ! ridx;
             product = products s ! pidx;
             transporter = transporters s ! tidx
         in
         if \<not> supplierHasProduct (s_productIds supplier) productId
         then (Inl (RuntimeError ''This supplier does not supply this product''), s, e)
         else if \<not> hasEnoughStock product quantity
         then (Inl (RuntimeError ''Insufficient product stock''), s, e)
         else
           (let (transaction, e1) =
                  costed_transaction s supplier retailer product transporter
                    supplierId retailerId productId transporterId quantity orderType e
            in
            if \<not> contracts_validate (contracts s) transaction
            then record_transaction L ''Failed Transaction | ''
                   (transaction\<lparr>t_status := ''Failed''\<rparr>) s e1
            else
              (case deductCredit retailer (t_totalCost transaction) of
                 (False, retailer1) \<Rightarrow>
                   record_transaction L ''Failed Transaction (Credit) | ''
                     (transaction\<lparr>t_status := ''Failed''\<rparr>)
                     (s\<lparr>retailers := (retailers s)[ridx := retailer1]\<rparr>) e1
               | (True, retailer1) \<Rightarrow>
                   (let s1 = s\<lparr>retailers := (retailers s)[ridx := retailer1]\<rparr>;
                        s2 = s1\<lparr>products := (products s1)[pidx := updateStock product (- quantity)]\<rparr>
                    in record_transaction L ''Completed Transaction | ''
                         (transaction\<lparr>t_status := ''Completed''\<rparr>) s2 e1))))))))"

text \<open>The \<open>catch\<close> handler turns every exception into the return value \<open>-1\<close>.\<close>

definition createTransaction ::
  "cxxlib \<Rightarrow> cint \<Rightarrow> cint \<Rightarrow> cint \<Rightarrow> cint \<Rightarrow> cint \<Rightarrow> string \<Rightarrow> PPS \<Rightarrow> env \<Rightarrow>
   cint \<times> PPS \<times> env" where
  "createTransaction L supplierId retailerId productId transporterId quantity orderType s e =
     (case createTransaction_body L supplierId retailerId productId transporterId quantity
             orderType s e of
        (Inl err, s1, e1) \<Rightarrow> (- 1, s1, e1)
      | (Inr ident, s1, e1) \<Rightarrow> (ident, s1, e1))"

text \<open>
  The checks of steps 1 to 3 as one predicate: all four ids resolve, the supplier lists
  the product and the stock covers the quantity. A call constructs a Transaction exactly
  when it holds.
\<close>

definition passes_checks :: "PPS \<Rightarrow> cint \<Rightarrow> cint \<Rightarrow> cint \<Rightarrow> cint \<Rightarrow> cint \<Rightarrow> bool" where
  "passes_checks s supplierId retailerId productId transporterId quantity =
     (case (findSupplier s supplierId, findRetailer s retailerId,
            findProduct s productId, findTransporter s transporterId) of
        (Some sidx, Some ridx, Some pidx, Some tidx) \<Rightarrow>
           supplierHasProduct (s_productIds (suppliers s ! sidx)) productId \<and>
           hasEnoughStock (products s ! pidx) quantity
      | _ \<Rightarrow> False)"

text \<open>A sequence of pipeline calls; each result is paired with whether the call constructed
  a Transaction.\<close>

record call =
  c_supplierId :: cint
  c_retailerId :: cint
  c_productId :: cint
  c_transporterId :: cint
  c_quantity :: cint
  c_orderType :: string

fun run_calls :: "cxxlib \<Rightarrow> call list \<Rightarrow> PPS \<Rightarrow> env \<Rightarrow> (bool \<times> cint) list \<times> PPS \<times> env" where
  "run_calls L [] s e = ([], s, e)"
| "run_calls L (c # cs) s e =
     (let constructed = passes_checks s (c_supplierId c) (c_retailerId c) (c_productId c)
                          (c_transporterId c) (c_quantity c);
          (r, s1, e1) = createTransaction L (c_supplierId c) (c_retailerId c) (c_productId c)
                          (c_transporterId c) (c_quantity c) (c_orderType c) s e;
          (outs, s2, e2) = run_calls L cs s1 e1
      in ((constructed, r) # outs, s2, e2))"

section \<open>Restoring the catalog\<close>

definition Product_deserialize :: "cxxlib \<Rightarrow> string \<Rightarrow> error + Product" where
  "Product_deserialize L str =
     (let parts = split_on CHR ''|'' str in
      if length parts < 4 then Inl (RuntimeError ''Invalid product data format'')
      else
        bind_err (stoi L (parts ! 0)) (\<lambda>ident.
        bind_err (stod L (parts ! 2)) (\<lambda>price.
        bind_err (stoi L (parts ! 3)) (\<lambda>stock.
          Inr \<lparr>p_id = ident, p_name = parts ! 1, p_price = price, p_stock = stock\<rparr>))))"

text \<open>The product ids of a supplier or retailer line: the pieces between commas, empty
  pieces skipped, each converted by \<open>std::stoi\<close> and pushed.\<close>

fun parse_productIds :: "cxxlib \<Rightarrow> string list \<Rightarrow> cint list \<Rightarrow> error + cint list" where
  "parse_productIds L [] acc = Inr acc"
| "parse_productIds L (productId # rest) acc =
     (if productId \<noteq> []
      then bind_err (stoi L productId) (\<lambda>n. parse_productIds L rest (acc @ [n]))
      else parse_productIds L rest acc)"

definition Supplier_deserialize :: "cxxlib \<Rightarrow> string \<Rightarrow> error + Supplier" where
  "Supplier_deserialize L str =
     (let parts = split_on CHR ''|'' str in
      if length parts < 6 then Inl (RuntimeError ''Invalid supplier data format'')
      else
        bind_err (stoi L (parts ! 0)) (\<lambda>ident.
        bind_err (stod L (parts ! 4)) (\<lambda>latitude.
        bind_err (stod L (parts ! 5)) (\<lambda>longitude.
        bind_err (if length parts > 6
                  then parse_productIds L (split_on CHR '','' (parts ! 6)) []
                  else Inr []) (\<lambda>ids.
          Inr \<lparr>s_id = ident, s_name = parts ! 1, s_location = parts ! 2, s_branch = parts ! 3,
               s_latitude = latitude, s_longitude = longitude, s_productIds = ids\<rparr>)))))"

definition Retailer_deserialize :: "cxxlib \<Rightarrow> string \<Rightarrow> error + Retailer" where
  "Retailer_deserialize L str =
     (let parts = split_on CHR ''|'' str in
      if length parts < 7 then Inl (RuntimeError ''Invalid retailer data format'')
      else
        bind_err (stoi L (parts ! 0)) (\<lambda>ident.
        bind_err (stod L (parts ! 3)) (\<lambda>latitude.
        bind_err (stod L (parts ! 4)) (\<lambda>longitude.
        bind_err (stod L (parts ! 5)) (\<lambda>credit.
        bind_err (stod L (parts ! 6)) (\<lambda>annual.
        bind_err (if length parts > 7
                  then parse_productIds L (split_on CHR '','' (parts ! 7)) []
                  else Inr []) (\<lambda>ids.
          Inr \<lparr>r_id = ident, r_name = parts ! 1, r_location = parts ! 2,
               r_latitude = latitude, r_longitude = longitude, r_creditBalance = credit,
               r_annualCreditBalance = annual, r_productIds = ids\<rparr>)))))))"

definition Transporter_deserialize :: "cxxlib \<Rightarrow> string \<Rightarrow> error + Transporter" where
  "Transporter_deserialize L str =
     (let parts = split_on CHR ''|'' str in
      if length parts < 5 then Inl (RuntimeError ''Invalid transporter data format'')
      else
        bind_err (stoi L (parts ! 0)) (\<lambda>ident.
        bind_err (stod L (parts ! 3)) (\<lambda>cost.
        bind_err (stod L (parts ! 4)) (\<lambda>capacity.
          Inr \<lparr>tr_id = ident, tr_name = parts ! 1, tr_transportType = parts ! 2,
               tr_costPerKm = cost, tr_maxCapacity = capacity\<rparr>))))"

text \<open>The Transaction constructor reads the clock before the costs are converted, so this
  deserializer also returns the environment.\<close>

definition Transaction_deserialize :: "cxxlib \<Rightarrow> string \<Rightarrow> env \<Rightarrow> (error + Transaction) \<times> env" where
  "Transaction_deserialize L str e =
     (let parts = split_on CHR ''|'' str in
      if length parts < 12 then (Inl (RuntimeError ''Invalid transaction data format''), e)
      else
        case bind_err (stoi L (parts ! 0)) (\<lambda>ident.
             bind_err (stoi L (parts ! 1)) (\<lambda>supplierId.
             bind_err (stoi L (parts ! 2)) (\<lambda>retailerId.
             bind_err (stoi L (parts ! 3)) (\<lambda>productId.
             bind_err (stoi L (parts ! 4)) (\<lambda>transporterId.
             bind_err (stoi L (parts ! 5)) (\<lambda>quantity.
               Inr (ident, supplierId, retailerId, productId, transporterId, quantity))))))) of
          Inl err \<Rightarrow> (Inl err, e)
        | Inr (ident, supplierId, retailerId, productId, transporterId, quantity) \<Rightarrow>
            (let (t0, e1) = new_Transaction ident supplierId retailerId productId transporterId
                              quantity e
             in (bind_err (stod L (parts ! 6)) (\<lambda>productCost.
                 bind_err (stod L (parts ! 7)) (\<lambda>transportCost.
                 bind_err (stod L (parts ! 8)) (\<lambda>totalCost.
                   Inr (t0\<lparr>t_productCost := productCost, t_transportCost := transportCost,
                           t_totalCost := totalCost, t_timestamp := parts ! 9,
                           t_status := parts ! 10, t_orderType := parts ! 11\<rparr>)))), e1)))"

text \<open>
  The loading loop that \<open>loadData\<close> repeats for every entity file: each line is
  deserialized; a line that throws is reported on \<open>std::cerr\<close> (the list of messages) and
  the loop goes on with the next line.
\<close>

fun load_lines ::
  "string \<Rightarrow> (string \<Rightarrow> env \<Rightarrow> (error + 'a) \<times> env) \<Rightarrow> string list \<Rightarrow> 'a list \<Rightarrow> string list \<Rightarrow> env
   \<Rightarrow> 'a list \<times> string list \<times> env" where
  "load_lines msg deser [] acc cerr e = (acc, cerr, e)"
| "load_lines msg deser (line # rest) acc cerr e =
     (case deser line e of
        (Inl err, e1) \<Rightarrow> load_lines msg deser rest acc (cerr @ [msg @ what err]) e1
      | (Inr x, e1) \<Rightarrow> load_lines msg deser rest (acc @ [x]) cerr e1)"

definition load_products :: "cxxlib \<Rightarrow> string list \<Rightarrow> string list \<Rightarrow> env \<Rightarrow> Product list \<times> string list \<times> env" where
  "load_products L lines cerr e =
     load_lines ''Error deserializing product: '' (\<lambda>line e1. (Product_deserialize L line, e1))
       lines [] cerr e"

definition load_suppliers :: "cxxlib \<Rightarrow> string list \<Rightarrow> string list \<Rightarrow> env \<Rightarrow> Supplier list \<times> string list \<times> env" where
  "load_suppliers L lines cerr e =
     load_lines ''Error deserializing supplier: '' (\<lambda>line e1. (Supplier_deserialize L line, e1))
       lines [] cerr e"

definition load_retailers :: "cxxlib \<Rightarrow> string list \<Rightarrow> string list \<Rightarrow> env \<Rightarrow> Retailer list \<times> string list \<times> env" where
  "load_retailers L lines cerr e =
     load_lines ''Error deserializing retailer: '' (\<lambda>line e1. (Retailer_deserialize L line, e1))
       lines [] cerr e"

definition load_transporters :: "cxxlib \<Rightarrow> string list \<Rightarrow> string list \<Rightarrow> env \<Rightarrow> Transporter list \<times> string list \<times> env" where
  "load_transporters L lines cerr e =
     load_lines ''Error deserializing transporter: ''
       (\<lambda>line e1. (Transporter_deserialize L line, e1)) lines [] cerr e"

definition load_transactions :: "cxxlib \<Rightarrow> string list \<Rightarrow> string list \<Rightarrow> env \<Rightarrow> Transaction list \<times> string list \<times> env" where
  "load_transactions L lines cerr e =
     load_lines ''Error deserializing transaction: '' (Transaction_deserialize L) lines [] cerr e"

text \<open>
  The saved files as \<open>loadData\<close> sees them: \<open>None\<close> for a file that cannot be opened, else
  its lines. The counters file is taken as already read: five integers (a counters file
  with fewer or other contents is not modelled).
\<close>

record files =
  blockchain_dat :: "string list option"
  products_dat :: "string list option"
  suppliers_dat :: "string list option"
  retailers_dat :: "string list option"
  transporters_dat :: "string list option"
  transactions_dat :: "string list option"
  nextids_dat :: "(cint \<times> cint \<times> cint \<times> cint \<times> cint) option"

definition loadData :: "cxxlib \<Rightarrow> files \<Rightarrow> PPS \<Rightarrow> string list \<Rightarrow> env \<Rightarrow> bool \<times> PPS \<times> string list \<times> env" where
  "loadData L fs s cerr e =
     (let s0 = s\<lparr>products := [], suppliers := [], retailers := [], transporters := [],
                  transactions := []\<rparr> in
      case loadFromFile L (blockchain_dat fs) (blockchain s0) e of
        (False, bc, e0) \<Rightarrow> (False, s0\<lparr>blockchain := bc\<rparr>, cerr, e0)
      | (True, bc, e0) \<Rightarrow>
          (let s1 = s0\<lparr>blockchain := bc\<rparr>;
               (ps, cerr1, e1) = (case products_dat fs of None \<Rightarrow> (products s1, cerr, e0)
                                  | Some lines \<Rightarrow> load_products L lines cerr e0);
               (ss, cerr2, e2) = (case suppliers_dat fs of None \<Rightarrow> (suppliers s1, cerr1, e1)
                                  | Some lines \<Rightarrow> load_suppliers L lines cerr1 e1);
               (rs, cerr3, e3) = (case retailers_dat fs of None \<Rightarrow> (retailers s1, cerr2, e2)
                                  | Some lines \<Rightarrow> load_retailers L lines cerr2 e2);
               (trs, cerr4, e4) = (case transporters_dat fs of None \<Rightarrow> (transporters s1, cerr3, e3)
                                   | Some lines \<Rightarrow> load_transporters L lines cerr3 e3);
               (ts, cerr5, e5) = (case transactions_dat fs of None \<Rightarrow> (transactions s1, cerr4, e4)
                                  | Some lines \<Rightarrow> load_transactions L lines cerr4 e4);
               s2 = s1\<lparr>products := ps, suppliers := ss, retailers := rs, transporters := trs,
                        transactions := ts\<rparr>;
               s3 = (case nextids_dat fs of None \<Rightarrow> s2
                     | Some (np, ns, nr, nt, nx) \<Rightarrow>
                         s2\<lparr>nextProductId := np, nextSupplierId := ns, nextRetailerId := nr,
                            nextTransporterId := nt, nextTransactionId := nx\<rparr>)
           in (True, s3, cerr5, e5)))"

section \<open>The route optimizer\<close>

text \<open>\<open>std::numeric_limits<double>::max()\<close>, the start value of both minimum searches.\<close>

definition DBL_MAX :: real where
  "DBL_MAX = (2 - 1 / 2 ^ 52) * 2 ^ 1023"

text \<open>The entries of the distance matrix and of the vector of distances from the supplier.\<close>

definition distances :: "Retailer list \<Rightarrow> nat \<Rightarrow> nat \<Rightarrow> real" where
  "distances rs i j =
     (if i \<noteq> j
      then calculateDistance (r_latitude (rs ! i)) (r_longitude (rs ! i))
             (r_latitude (rs ! j)) (r_longitude (rs ! j))
      else 0)"

definition supplierDistances :: "Supplier \<Rightarrow> Retailer list \<Rightarrow> nat \<Rightarrow> real" where
  "supplierDistances supplier rs i =
     calculateDistance (s_latitude supplier) (s_longitude supplier)
       (r_latitude (rs ! i)) (r_longitude (rs ! i))"

text \<open>
  \<open>idToIndex[retailers[i].getId()] = i\<close> for every index in turn, and the read
  \<open>idToIndex[id]\<close>, which gives 0 for an id that is not a key.
\<close>

definition idToIndex_of :: "Retailer list \<Rightarrow> (cint \<rightharpoonup> nat)" where
  "idToIndex_of rs = foldl (\<lambda>m i. m(r_id (rs ! i) \<mapsto> i)) Map.empty [0..<length rs]"

definition index_at :: "(cint \<rightharpoonup> nat) \<Rightarrow> cint \<Rightarrow> nat" where
  "index_at m k = (case m k of None \<Rightarrow> 0 | Some i \<Rightarrow> i)"

text \<open>
  One minimum search: \<open>index = 0; minDist = max; for j in 0..n-1: if (eligible(j) &&
  d[j] < minDist) { minDist = d[j]; index = j; }\<close>.
\<close>

definition nearer :: "(nat \<Rightarrow> bool) \<Rightarrow> (nat \<Rightarrow> real) \<Rightarrow> nat \<times> real \<Rightarrow> nat \<Rightarrow> nat \<times> real" where
  "nearer eligible d best j = (if eligible j \<and> d j < snd best then (j, d j) else best)"

definition nearest :: "nat \<Rightarrow> (nat \<Rightarrow> bool) \<Rightarrow> (nat \<Rightarrow> real) \<Rightarrow> nat" where
  "nearest n eligible d = fst (foldl (nearer eligible d) (0, DBL_MAX) [0..<n])"

text \<open>
  One round of the greedy loop on the state \<open>(currentIndex, visited, route)\<close>. What is
  pushed on the route is \<open>label nextIndex\<close>; the program pushes \<open>indexToId[nextIndex]\<close>.
\<close>

fun greedy_step ::
  "(nat \<Rightarrow> 'a) \<Rightarrow> Retailer list \<Rightarrow> nat \<times> bool list \<times> 'a list \<Rightarrow> nat \<Rightarrow> nat \<times> bool list \<times> 'a list" where
  "greedy_step label rs (currentIndex, visited, route) i =
     (let nextIndex = nearest (length rs) (\<lambda>j. \<not> visited ! j) (distances rs currentIndex)
      in (nextIndex, visited[nextIndex := True], route @ [label nextIndex]))"

definition greedy_route :: "(nat \<Rightarrow> 'a) \<Rightarrow> Supplier \<Rightarrow> Retailer list \<Rightarrow> 'a list" where
  "greedy_route label supplier rs =
     (let n = length rs;
          currentIndex = nearest n (\<lambda>j. True) (supplierDistances supplier rs);
          visited = (replicate n False)[currentIndex := True]
      in snd (snd (foldl (greedy_step label rs) (currentIndex, visited, [label currentIndex])
                     [1..<n])))"

definition route_of :: "Supplier \<Rightarrow> Retailer list \<Rightarrow> cint list" where
  "route_of supplier rs = greedy_route (\<lambda>i. map r_id rs ! i) supplier rs"

definition totalDistance_of :: "Supplier \<Rightarrow> Retailer list \<Rightarrow> cint list \<Rightarrow> real" where
  "totalDistance_of supplier rs route =
     (let idToIndex = index_at (idToIndex_of rs);
          d0 = supplierDistances supplier rs (idToIndex (route ! 0));
          d1 = foldl (\<lambda>subtotal i. subtotal +
                        distances rs (idToIndex (route ! i)) (idToIndex (route ! (i + 1))))
                 d0 [0..<length route - 1];
          lastRetailer = rs ! idToIndex (last route)
      in d1 + calculateDistance (r_latitude lastRetailer) (r_longitude lastRetailer)
                (s_latitude supplier) (s_longitude supplier))"

text \<open>
  \<open>optimizeDistributionRoute\<close>: the supplier id and the transporter id are read from the
  console and are arguments here. The route and its length are reported before the
  transporter is asked for; the result carries them when the function runs to its end.
\<close>

definition optimizeDistributionRoute ::
  "cxxlib \<Rightarrow> cint \<Rightarrow> cint \<Rightarrow> PPS \<Rightarrow> env \<Rightarrow> (error + cint list \<times> real) \<times> PPS \<times> env" where
  "optimizeDistributionRoute L supplierId transporterId s e =
     (if length (retailers s) < 2
      then (Inl (RuntimeError ''Need at least 2 retailers to optimize routes''), s, e)
      else case findSupplier s supplierId of
        None \<Rightarrow> (Inl (RuntimeError ''Supplier not found''), s, e)
      | Some sidx \<Rightarrow>
          (let supplier = suppliers s ! sidx;
               route = route_of supplier (retailers s);
               totalDistance = totalDistance_of supplier (retailers s) route
           in case findTransporter s transporterId of
                None \<Rightarrow> (Inl (RuntimeError ''Transporter not found''), s, e)
              | Some tidx \<Rightarrow>
                  (let transportCost = calculateTransportCost (transporters s ! tidx) totalDistance
                   in case addBlock (''Optimized Route | Supplier: '' @ int_str L (s_id supplier) @
                                     '' | Retailers: '' @ concat (map (\<lambda>ident. int_str L ident @ '','') route) @
                                     '' | Distance: '' @ dbl_str L totalDistance @
                                     '' | Transporter: '' @ int_str L transporterId @
                                     '' | Cost: '' @ dbl_str L transportCost)
                             (blockchain s) e of
                        (Inl err, bc, e1) \<Rightarrow> (Inl err, s\<lparr>blockchain := bc\<rparr>, e1)
                      | (Inr u, bc, e1) \<Rightarrow> (Inr (route, totalDistance), s\<lparr>blockchain := bc\<rparr>, e1))))"

text \<open>
  The words of the specification for the route, written from the coordinates of the
  entities and not from what the program computes. The planar distance in km between two
  points given in degrees: the Euclidean distance of the degrees times 111.
\<close>

definition planar_km :: "real \<Rightarrow> real \<Rightarrow> real \<Rightarrow> real \<Rightarrow> real" where
  "planar_km lat1 lon1 lat2 lon2 = sqrt ((lat2 - lat1)\<^sup>2 + (lon2 - lon1)\<^sup>2) * 111"

text \<open>The planar distance from the supplier to the retailer at position \<open>j\<close>, from that
  retailer back to the supplier, and between the retailers at two positions.\<close>

definition supplier_to_retailer :: "Supplier \<Rightarrow> Retailer list \<Rightarrow> nat \<Rightarrow> real" where
  "supplier_to_retailer supplier rs j =
     planar_km (s_latitude supplier) (s_longitude supplier)
       (r_latitude (rs ! j)) (r_longitude (rs ! j))"

definition retailer_to_supplier :: "Supplier \<Rightarrow> Retailer list \<Rightarrow> nat \<Rightarrow> real" where
  "retailer_to_supplier supplier rs j =
     planar_km (r_latitude (rs ! j)) (r_longitude (rs ! j))
       (s_latitude supplier) (s_longitude supplier)"

definition retailerDistance :: "Retailer list \<Rightarrow> nat \<Rightarrow> nat \<Rightarrow> real" where
  "retailerDistance rs i j =
     planar_km (r_latitude (rs ! i)) (r_longitude (rs ! i))
       (r_latitude (rs ! j)) (r_longitude (rs ! j))"

text \<open>
  What it is to be the retailer nearest the supplier, and the nearest not yet visited
  retailer from the current one: no eligible retailer is nearer, and every eligible
  retailer earlier in iteration order is strictly farther. The length of a tour: from the
  supplier to the first stop, from stop to stop, and from the last stop back.
\<close>

definition nearest_to_supplier :: "Supplier \<Rightarrow> Retailer list \<Rightarrow> nat \<Rightarrow> bool" where
  "nearest_to_supplier supplier rs x \<longleftrightarrow>
     x < length rs \<and>
     (\<forall>j<length rs.
        supplier_to_retailer supplier rs x \<le> supplier_to_retailer supplier rs j \<and>
        (j < x \<longrightarrow> supplier_to_retailer supplier rs x < supplier_to_retailer supplier rs j))"

definition nearest_unvisited :: "Retailer list \<Rightarrow> nat list \<Rightarrow> nat \<Rightarrow> nat \<Rightarrow> bool" where
  "nearest_unvisited rs seen c x \<longleftrightarrow>
     x < length rs \<and> x \<notin> set seen \<and>
     (\<forall>j<length rs. j \<notin> set seen \<longrightarrow>
        retailerDistance rs c x \<le> retailerDistance rs c j \<and>
        (j < x \<longrightarrow> retailerDistance rs c x < retailerDistance rs c j))"

definition tour_length :: "Supplier \<Rightarrow> Retailer list \<Rightarrow> nat list \<Rightarrow> real" where
  "tour_length supplier rs stops =
     supplier_to_retailer supplier rs (stops ! 0)
     + sum_list (map (\<lambda>p. retailerDistance rs (stops ! p) (stops ! (p + 1)))
                  [0..<length stops - 1])
     + retailer_to_supplier supplier rs (last stops)"

section \<open>The inventory allocator\<close>















text \<open>
  What a load that skips malformed lines is to produce, in the words of the specification:
  the records of the lines that deserialize, in the order of the lines, and one warning
  for every line that does not.
\<close>

definition kept :: "(string \<Rightarrow> error + 'a) \<Rightarrow> string list \<Rightarrow> 'a list" where
  "kept f lines = List.map_filter (\<lambda>line. case f line of Inl err \<Rightarrow> None | Inr x \<Rightarrow> Some x) lines"

definition warnings :: "string \<Rightarrow> (string \<Rightarrow> error + 'a) \<Rightarrow> string list \<Rightarrow> string list" where
  "warnings msg f lines =
     List.map_filter (\<lambda>line. case f line of Inl err \<Rightarrow> Some (msg @ what err) | Inr x \<Rightarrow> None) lines"

text \<open>Blocks numbered and linked one after the other, starting after \<open>prev\<close>.\<close>

fun follows :: "Block \<Rightarrow> Block list \<Rightarrow> string list \<Rightarrow> bool" where
  "follows prev [] ds = (ds = [])"
| "follows prev (b # bs) ds =
     (case ds of [] \<Rightarrow> False
      | d # ds' \<Rightarrow> b_previousHash b = b_currentHash prev \<and> b_blockNumber b = b_blockNumber prev + 1
                   \<and> b_data b = d \<and> follows b bs ds')"

section \<open>A concrete system for the examples\<close>

text \<open>
  A runtime, an environment and a small system state on which the theorems below are
  instantiated: one product (price 5.50, stock 1000), one supplier at (0, 0) carrying it,
  one retailer at (3, 4) with credit 10000, one transporter at 2.50 per km, the shipped
  price ceiling of 4000 and a ledger holding a genesis block. The supplier and the
  retailer are 5 degrees apart, that is 555 km.
\<close>

definition digit_val :: "char \<Rightarrow> nat" where
  "digit_val ch = of_char ch - 48"

definition example_stoi :: "string \<Rightarrow> error + cint" where
  "example_stoi str =
     (if str \<noteq> [] \<and> list_all (\<lambda>ch. 48 \<le> (of_char ch :: nat) \<and> (of_char ch :: nat) \<le> 57) str
      then Inr (of_nat (foldl (\<lambda>n ch. 10 * n + digit_val ch) 0 str))
      else Inl (InvalidArgument ''stoi''))"

definition example_lib :: cxxlib where
  "example_lib = \<lparr>stoi = example_stoi,
                  stod = (\<lambda>str. case example_stoi str of Inl err \<Rightarrow> Inl err
                                 | Inr n \<Rightarrow> Inr (real_of_int (sint n))),
                  int_str = (\<lambda>n. ''#''), dbl_str = (\<lambda>x. ''#.#''), fixed2_str = (\<lambda>x. ''#.##'')\<rparr>"

definition example_env :: env where
  "example_env = \<lparr>rand_src = (\<lambda>k. k), rand_pos = 0,
                  clock_src = (\<lambda>k. ''20250101:12:00''), clock_pos = 0\<rparr>"

definition example_genesis :: Block where
  "example_genesis = \<lparr>b_blockNumber = 0, b_currentHash = ''0123456789'',
                      b_previousHash = ''abcdefghij'', b_timestamp = ''20250101:11:59'',
                      b_data = ''Genesis Block''\<rparr>"

definition example_sys :: PPS where
  "example_sys =
     \<lparr>products = [\<lparr>p_id = 1, p_name = ''Rice'', p_price = 11 / 2, p_stock = 1000\<rparr>],
      suppliers = [\<lparr>s_id = 1, s_name = ''Malayan Agro'', s_location = ''Kuala Lumpur'',
                    s_branch = ''KL'', s_latitude = 0, s_longitude = 0, s_productIds = [1]\<rparr>],
      retailers = [\<lparr>r_id = 1, r_name = ''SuperMart'', r_location = ''Bukit Bintang'',
                    r_latitude = 3, r_longitude = 4, r_creditBalance = 10000,
                    r_annualCreditBalance = 100000, r_productIds = []\<rparr>],
      transporters = [\<lparr>tr_id = 1, tr_name = ''FastTruck'', tr_transportType = ''Ground'',
                       tr_costPerKm = 5 / 2, tr_maxCapacity = 2000\<rparr>],
      transactions = [],
      contracts = [PriceThresholdContract 4000],
      blockchain = \<lparr>chain = [example_genesis]\<rparr>,
      nextProductId = 2, nextSupplierId = 2, nextRetailerId = 2, nextTransporterId = 2,
      nextTransactionId = 1\<rparr>"

definition example_call :: "cint \<Rightarrow> cint \<Rightarrow> call" where
  "example_call supplierId quantity =
     \<lparr>c_supplierId = supplierId, c_retailerId = 1, c_productId = 1, c_transporterId = 1,
      c_quantity = quantity, c_orderType = ''Regular''\<rparr>"

text \<open>The same system with a second product.\<close>

definition example_sys2 :: PPS where
  "example_sys2 = example_sys\<lparr>products := products example_sys @
      [\<lparr>p_id = 2, p_name = ''Vegetables'', p_price = 16 / 5, p_stock = 800\<rparr>]\<rparr>"

text \<open>A system with three retailers and 25 units of its product, for the allocator.\<close>

definition example_sys3 :: PPS where
  "example_sys3 = example_sys
     \<lparr>products := [\<lparr>p_id = 1, p_name = ''Rice'', p_price = 11 / 2, p_stock = 25\<rparr>],
      retailers := [\<lparr>r_id = 1, r_name = ''SuperMart'', r_location = ''Bukit Bintang'',
                    r_latitude = 3, r_longitude = 4, r_creditBalance = 10000,
                    r_annualCreditBalance = 100000, r_productIds = []\<rparr>,
                   \<lparr>r_id = 2, r_name = ''FreshMart'', r_location = ''Petaling Jaya'',
                    r_latitude = 6, r_longitude = 8, r_creditBalance = 8000,
                    r_annualCreditBalance = 80000, r_productIds = []\<rparr>,
                   \<lparr>r_id = 3, r_name = ''QuickMart'', r_location = ''Shah Alam'',
                    r_latitude = 3, r_longitude = 0, r_creditBalance = 5000,
                    r_annualCreditBalance = 50000, r_productIds = []\<rparr>]\<rparr>"

text \<open>
  Two states that \<open>loadData\<close> builds from a \<open>retailers.dat\<close> it reads without checks:
  one with two retailers that carry the same id, one with a retailer whose latitude
  \<open>2 ^ 1020\<close> (a double) is far outside the valid range.
\<close>

definition example_sys_same_ids :: PPS where
  "example_sys_same_ids = example_sys
     \<lparr>retailers := [\<lparr>r_id = 1, r_name = ''SuperMart'', r_location = ''Bukit Bintang'',
                    r_latitude = 3, r_longitude = 4, r_creditBalance = 10000,
                    r_annualCreditBalance = 100000, r_productIds = []\<rparr>,
                   \<lparr>r_id = 1, r_name = ''FreshMart'', r_location = ''Petaling Jaya'',
                    r_latitude = 0, r_longitude = 4, r_creditBalance = 8000,
                    r_annualCreditBalance = 80000, r_productIds = []\<rparr>]\<rparr>"

definition example_sys_far :: PPS where
  "example_sys_far = example_sys
     \<lparr>retailers := [\<lparr>r_id = 1, r_name = ''SuperMart'', r_location = ''Bukit Bintang'',
                    r_latitude = 3, r_longitude = 4, r_creditBalance = 10000,
                    r_annualCreditBalance = 100000, r_productIds = []\<rparr>,
                   \<lparr>r_id = 2, r_name = ''FreshMart'', r_location = ''Petaling Jaya'',
                    r_latitude = 2 ^ 1020, r_longitude = 0, r_creditBalance = 8000,
                    r_annualCreditBalance = 80000, r_productIds = []\<rparr>]\<rparr>"


section \<open>Facts about the ledger\<close>

lemma links_from_iff:
  "links_from p bs \<longleftrightarrow> (\<forall>i<length bs. b_previousHash (bs ! i) = b_currentHash ((p # bs) ! i))"
proof (induction bs arbitrary: p)
  case Nil
  then show ?case by simp
next
  case (Cons b bs)
  show ?case
    by (auto simp: Cons.IH less_Suc_eq_0_disj nth_Cons')
qed

lemma isChainValid_iff:
  "isChainValid bc \<longleftrightarrow>
     (\<forall>i. 0 < i \<and> i < length (chain bc) \<longrightarrow>
          b_previousHash (chain bc ! i) = b_currentHash (chain bc ! (i - 1)))"
proof (cases "chain bc")
  case Nil
  then show ?thesis by (simp add: isChainValid_def)
next
  case (Cons b bs)
  have "(\<forall>i<length bs. b_previousHash (bs ! i) = b_currentHash ((b # bs) ! i)) \<longleftrightarrow>
        (\<forall>i. 0 < i \<and> i < Suc (length bs) \<longrightarrow>
           b_previousHash ((b # bs) ! i) = b_currentHash ((b # bs) ! (i - 1)))"
    (is "?L \<longleftrightarrow> ?R")
  proof
    assume l: ?L
    show ?R
    proof (intro allI impI)
      fix i assume "0 < i \<and> i < Suc (length bs)"
      then obtain j where "i = Suc j" "j < length bs" by (cases i) auto
      with l show "b_previousHash ((b # bs) ! i) = b_currentHash ((b # bs) ! (i - 1))" by simp
    qed
  next
    assume r: ?R
    show ?L
    proof (intro allI impI)
      fix i assume "i < length bs"
      with r [rule_format, of "Suc i"] show "b_previousHash (bs ! i) = b_currentHash ((b # bs) ! i)"
        by simp
    qed
  qed
  then show ?thesis by (simp add: isChainValid_def Cons links_from_iff)
qed

lemma new_Block_fields:
  "b_blockNumber (fst (new_Block n p d e)) = n"
  "b_previousHash (fst (new_Block n p d e)) = p"
  "b_data (fst (new_Block n p d e)) = d"
  by (simp_all add: new_Block_def Let_def split_beta)

lemma addBlock_nonempty:
  assumes "chain bc \<noteq> []"
  shows "addBlock d bc e =
           (Inr (), bc\<lparr>chain := chain bc @
              [fst (new_Block (b_blockNumber (last (chain bc)) + 1) (b_currentHash (last (chain bc))) d e)]\<rparr>,
            snd (new_Block (b_blockNumber (last (chain bc)) + 1) (b_currentHash (last (chain bc))) d e))"
  using assms by (simp add: addBlock_def getLatestBlock_def split_beta)


lemma follows_snoc:
  "follows p (bs @ [nb]) (ds @ [d]) \<longleftrightarrow>
     follows p bs ds \<and> b_previousHash nb = b_currentHash (last (p # bs))
       \<and> b_blockNumber nb = b_blockNumber (last (p # bs)) + 1 \<and> b_data nb = d"
proof (induction bs arbitrary: p ds)
  case Nil
  then show ?case by (cases ds) (auto split: list.splits)
next
  case (Cons b bs)
  show ?case
  proof (cases ds)
    case Nil
    then show ?thesis by (cases bs) (auto split: list.splits)
  next
    case (Cons d' ds')
    then show ?thesis using Cons.IH [of b ds'] by auto
  qed
qed

lemma follows_length: "follows p bs ds \<Longrightarrow> length bs = length ds"
  by (induction bs arbitrary: p ds) (auto split: list.splits)

lemma follows_nth:
  "follows p bs ds \<Longrightarrow> i < length bs \<Longrightarrow>
     b_previousHash (bs ! i) = b_currentHash ((p # bs) ! i) \<and>
     b_blockNumber (bs ! i) = b_blockNumber ((p # bs) ! i) + 1 \<and> b_data (bs ! i) = ds ! i"
proof (induction bs arbitrary: p ds i)
  case Nil
  then show ?case by simp
next
  case (Cons b bs)
  then obtain d ds' where ds: "ds = d # ds'" by (cases ds) auto
  show ?case
  proof (cases i)
    case 0
    with Cons.prems ds show ?thesis by simp
  next
    case (Suc j)
    with Cons.prems ds Cons.IH [of b ds' j] show ?thesis by simp
  qed
qed

lemma addBlocks_follows:
  "follows g bs ds0 \<Longrightarrow> chain bc = g # bs \<Longrightarrow>
   \<exists>bs' e1. addBlocks ds bc e = (Inr (), bc\<lparr>chain := g # bs'\<rparr>, e1) \<and> follows g bs' (ds0 @ ds)"
proof (induction ds arbitrary: bc bs ds0 e)
  case Nil
  then show ?case by (cases bc) auto
next
  case (Cons d ds)
  let ?nb = "fst (new_Block (b_blockNumber (last (chain bc)) + 1) (b_currentHash (last (chain bc))) d e)"
  let ?e1 = "snd (new_Block (b_blockNumber (last (chain bc)) + 1) (b_currentHash (last (chain bc))) d e)"
  let ?bc1 = "bc\<lparr>chain := chain bc @ [?nb]\<rparr>"
  have ne: "chain bc \<noteq> []" using Cons.prems by simp
  have f: "follows g (bs @ [?nb]) (ds0 @ [d])"
    using Cons.prems by (simp add: follows_snoc new_Block_fields)
  have c: "chain ?bc1 = g # (bs @ [?nb])" using Cons.prems by simp
  from Cons.IH [OF f c, of ?e1] obtain bs' e1 where
    r: "addBlocks ds ?bc1 ?e1 = (Inr (), ?bc1\<lparr>chain := g # bs'\<rparr>, e1)"
    and f': "follows g bs' ((ds0 @ [d]) @ ds)" by blast
  have "addBlocks (d # ds) bc e = (Inr (), bc\<lparr>chain := g # bs'\<rparr>, e1)"
    using r by (simp add: addBlock_nonempty [OF ne])
  with f' show ?case by auto
qed

lemma new_Blockchain_chain:
  "\<exists>g. chain (fst (new_Blockchain e)) = [g] \<and> b_blockNumber g = 0"
  by (simp add: new_Blockchain_def createGenesisBlock_def split_beta new_Block_fields)


lemma loadFromFile_empty_source:
  "\<exists>g. chain (fst (snd (loadFromFile L (Some []) bc e))) = [g] \<and> b_blockNumber g = 0
       \<and> fst (loadFromFile L (Some []) bc e)"
  by (simp add: loadFromFile_def createGenesisBlock_def split_beta new_Block_fields)

lemma loadFromFile_unopened: "loadFromFile L None bc e = (False, bc, e)"
  by (simp add: loadFromFile_def)

lemma addBlock_keeps_nonempty: "chain (fst (snd (addBlock d bc e))) \<noteq> [] \<longleftrightarrow> chain bc \<noteq> []"
  by (simp add: addBlock_def getLatestBlock_def split_beta)


section \<open>Facts about the transaction pipeline\<close>

lemma find_first_Some:
  "find_first P xs = Some i \<Longrightarrow> i < length xs \<and> P (xs ! i) \<and> (\<forall>j<i. \<not> P (xs ! j))"
proof (induction xs arbitrary: i)
  case Nil
  then show ?case by simp
next
  case (Cons x xs)
  show ?case
  proof (cases "P x")
    case True
    with Cons.prems show ?thesis by simp
  next
    case False
    with Cons.prems obtain k where k: "find_first P xs = Some k" "i = Suc k" by auto
    from Cons.IH [OF k(1)] False k(2) show ?thesis
      by (auto simp: nth_Cons split: nat.splits)
  qed
qed

lemma find_first_None: "find_first P xs = None \<longleftrightarrow> (\<forall>x\<in>set xs. \<not> P x)"
  by (induction xs) auto

text \<open>What recording does on a non-empty ledger.\<close>

lemma record_transaction_nonempty:
  assumes "chain (blockchain s) \<noteq> []"
  shows "\<exists>b e1. record_transaction L prefix t s e =
           (Inr (nextTransactionId s),
            s\<lparr>transactions := transactions s @ [t],
              blockchain := (blockchain s)\<lparr>chain := chain (blockchain s) @ [b]\<rparr>,
              nextTransactionId := nextTransactionId s + 1\<rparr>, e1)
         \<and> b_data b = prefix @ getBlockData L t
         \<and> b_blockNumber b = b_blockNumber (last (chain (blockchain s))) + 1
         \<and> b_previousHash b = b_currentHash (last (chain (blockchain s)))"
proof -
  let ?nb = "new_Block (b_blockNumber (last (chain (blockchain s))) + 1)
               (b_currentHash (last (chain (blockchain s)))) (prefix @ getBlockData L t) e"
  show ?thesis
    apply (rule exI [of _ "fst ?nb"])
    apply (rule exI [of _ "snd ?nb"])
    using assms
    apply (simp add: record_transaction_def Let_def addBlock_nonempty new_Block_fields)
    done
qed

lemma not_passes_checks:
  assumes "\<not> passes_checks s supplierId retailerId productId transporterId quantity"
  shows "createTransaction L supplierId retailerId productId transporterId quantity orderType s e
           = (- 1, s, e)"
  using assms
  by (auto simp: passes_checks_def createTransaction_def createTransaction_body_def Let_def
           split: option.splits)

lemma passes_checks_iff:
  "passes_checks s supplierId retailerId productId transporterId quantity \<longleftrightarrow>
     (\<exists>sidx ridx pidx tidx.
        findSupplier s supplierId = Some sidx \<and> findRetailer s retailerId = Some ridx \<and>
        findProduct s productId = Some pidx \<and> findTransporter s transporterId = Some tidx \<and>
        supplierHasProduct (s_productIds (suppliers s ! sidx)) productId \<and>
        hasEnoughStock (products s ! pidx) quantity)"
  by (auto simp: passes_checks_def split: option.splits)

lemma costed_transaction_fields:
  "t_id (fst (costed_transaction s su r p tr sid rid pid tid q ot e)) = nextTransactionId s"
  "t_quantity (fst (costed_transaction s su r p tr sid rid pid tid q ot e)) = q"
  "t_totalCost (fst (costed_transaction s su r p tr sid rid pid tid q ot e)) =
     p_price p * real_of_int (sint q) +
     calculateTransportCost tr (calculateDistance (s_latitude su) (s_longitude su) (r_latitude r) (r_longitude r))"
  by (simp_all add: costed_transaction_def new_Transaction_def getCurrentTimestamp_def
        calculateTotalCost_def Let_def split_beta)

lemma contracts_validate_status [simp]:
  "contracts_validate cs (t\<lparr>t_status := st\<rparr>) = contracts_validate cs t"
proof (induction cs)
  case Nil
  show ?case by simp
next
  case (Cons c cs)
  then show ?case by (cases c) simp
qed

text \<open>The three recording paths, on a non-empty ledger.\<close>

lemma createTransaction_constructed:
  assumes f: "findSupplier s supplierId = Some sidx" "findRetailer s retailerId = Some ridx"
             "findProduct s productId = Some pidx" "findTransporter s transporterId = Some tidx"
    and h: "supplierHasProduct (s_productIds (suppliers s ! sidx)) productId"
           "hasEnoughStock (products s ! pidx) quantity"
    and ne: "chain (blockchain s) \<noteq> []"
    and t: "t = fst (costed_transaction s (suppliers s ! sidx) (retailers s ! ridx)
                  (products s ! pidx) (transporters s ! tidx)
                  supplierId retailerId productId transporterId quantity orderType e)"
  shows "\<exists>b e1.
     createTransaction L supplierId retailerId productId transporterId quantity orderType s e =
       (nextTransactionId s,
        (if contracts_validate (contracts s) t \<and> r_creditBalance (retailers s ! ridx) \<ge> t_totalCost t
         then s\<lparr>retailers := (retailers s)[ridx := snd (deductCredit (retailers s ! ridx) (t_totalCost t))],
                products := (products s)[pidx := updateStock (products s ! pidx) (- quantity)],
                transactions := transactions s @ [t\<lparr>t_status := ''Completed''\<rparr>],
                blockchain := (blockchain s)\<lparr>chain := chain (blockchain s) @ [b]\<rparr>,
                nextTransactionId := nextTransactionId s + 1\<rparr>
         else s\<lparr>transactions := transactions s @ [t\<lparr>t_status := ''Failed''\<rparr>],
                blockchain := (blockchain s)\<lparr>chain := chain (blockchain s) @ [b]\<rparr>,
                nextTransactionId := nextTransactionId s + 1\<rparr>), e1)
     \<and> b_blockNumber b = b_blockNumber (last (chain (blockchain s))) + 1
     \<and> b_previousHash b = b_currentHash (last (chain (blockchain s)))
     \<and> b_data b =
         (if \<not> contracts_validate (contracts s) t
          then ''Failed Transaction | '' @ getBlockData L (t\<lparr>t_status := ''Failed''\<rparr>)
          else if r_creditBalance (retailers s ! ridx) < t_totalCost t
          then ''Failed Transaction (Credit) | '' @ getBlockData L (t\<lparr>t_status := ''Failed''\<rparr>)
          else ''Completed Transaction | '' @ getBlockData L (t\<lparr>t_status := ''Completed''\<rparr>))"
proof -
  let ?ct = "costed_transaction s (suppliers s ! sidx) (retailers s ! ridx)
                  (products s ! pidx) (transporters s ! tidx)
                  supplierId retailerId productId transporterId quantity orderType e"
  obtain e0 where ct: "?ct = (t, e0)" using t by (cases ?ct) simp
  consider (policy) "\<not> contracts_validate (contracts s) t"
    | (credit) "contracts_validate (contracts s) t" "r_creditBalance (retailers s ! ridx) < t_totalCost t"
    | (ok) "contracts_validate (contracts s) t" "r_creditBalance (retailers s ! ridx) \<ge> t_totalCost t"
    by fastforce
  then show ?thesis
  proof cases
    case policy
    from record_transaction_nonempty [OF ne, of L "''Failed Transaction | ''" "t\<lparr>t_status := ''Failed''\<rparr>" e0]
    obtain b e1 where r: "record_transaction L ''Failed Transaction | '' (t\<lparr>t_status := ''Failed''\<rparr>) s e0 =
           (Inr (nextTransactionId s),
            s\<lparr>transactions := transactions s @ [t\<lparr>t_status := ''Failed''\<rparr>],
              blockchain := (blockchain s)\<lparr>chain := chain (blockchain s) @ [b]\<rparr>,
              nextTransactionId := nextTransactionId s + 1\<rparr>, e1)"
      and b: "b_data b = ''Failed Transaction | '' @ getBlockData L (t\<lparr>t_status := ''Failed''\<rparr>)"
         "b_blockNumber b = b_blockNumber (last (chain (blockchain s))) + 1"
         "b_previousHash b = b_currentHash (last (chain (blockchain s)))" by blast
    have "createTransaction L supplierId retailerId productId transporterId quantity orderType s e =
       (nextTransactionId s, s\<lparr>transactions := transactions s @ [t\<lparr>t_status := ''Failed''\<rparr>],
              blockchain := (blockchain s)\<lparr>chain := chain (blockchain s) @ [b]\<rparr>,
              nextTransactionId := nextTransactionId s + 1\<rparr>, e1)"
      using f h policy r ct
      by (simp add: createTransaction_def createTransaction_body_def Let_def)
    with b policy show ?thesis by auto
  next
    case credit
    have s_eq: "s\<lparr>retailers := (retailers s)[ridx := retailers s ! ridx]\<rparr> = s" by simp
    from record_transaction_nonempty [OF ne, of L "''Failed Transaction (Credit) | ''" "t\<lparr>t_status := ''Failed''\<rparr>" e0]
    obtain b e1 where r: "record_transaction L ''Failed Transaction (Credit) | '' (t\<lparr>t_status := ''Failed''\<rparr>) s e0 =
           (Inr (nextTransactionId s),
            s\<lparr>transactions := transactions s @ [t\<lparr>t_status := ''Failed''\<rparr>],
              blockchain := (blockchain s)\<lparr>chain := chain (blockchain s) @ [b]\<rparr>,
              nextTransactionId := nextTransactionId s + 1\<rparr>, e1)"
      and b: "b_data b = ''Failed Transaction (Credit) | '' @ getBlockData L (t\<lparr>t_status := ''Failed''\<rparr>)"
         "b_blockNumber b = b_blockNumber (last (chain (blockchain s))) + 1"
         "b_previousHash b = b_currentHash (last (chain (blockchain s)))" by blast
    have "createTransaction L supplierId retailerId productId transporterId quantity orderType s e =
       (nextTransactionId s, s\<lparr>transactions := transactions s @ [t\<lparr>t_status := ''Failed''\<rparr>],
              blockchain := (blockchain s)\<lparr>chain := chain (blockchain s) @ [b]\<rparr>,
              nextTransactionId := nextTransactionId s + 1\<rparr>, e1)"
      using f h credit r ct s_eq
      by (simp add: createTransaction_def createTransaction_body_def Let_def deductCredit_def)
    with b credit show ?thesis by auto
  next
    case ok
    let ?s2 = "s\<lparr>retailers := (retailers s)[ridx := snd (deductCredit (retailers s ! ridx) (t_totalCost t))],
                products := (products s)[pidx := updateStock (products s ! pidx) (- quantity)]\<rparr>"
    have ne2: "chain (blockchain ?s2) \<noteq> []" using ne by simp
    from record_transaction_nonempty [OF ne2, of L "''Completed Transaction | ''" "t\<lparr>t_status := ''Completed''\<rparr>" e0]
    obtain b e1 where r: "record_transaction L ''Completed Transaction | '' (t\<lparr>t_status := ''Completed''\<rparr>) ?s2 e0 =
           (Inr (nextTransactionId ?s2),
            ?s2\<lparr>transactions := transactions ?s2 @ [t\<lparr>t_status := ''Completed''\<rparr>],
              blockchain := (blockchain ?s2)\<lparr>chain := chain (blockchain ?s2) @ [b]\<rparr>,
              nextTransactionId := nextTransactionId ?s2 + 1\<rparr>, e1)"
      and b: "b_data b = ''Completed Transaction | '' @ getBlockData L (t\<lparr>t_status := ''Completed''\<rparr>)"
         "b_blockNumber b = b_blockNumber (last (chain (blockchain ?s2))) + 1"
         "b_previousHash b = b_currentHash (last (chain (blockchain ?s2)))" by blast
    have "createTransaction L supplierId retailerId productId transporterId quantity orderType s e =
       (nextTransactionId s, ?s2\<lparr>transactions := transactions s @ [t\<lparr>t_status := ''Completed''\<rparr>],
              blockchain := (blockchain s)\<lparr>chain := chain (blockchain s) @ [b]\<rparr>,
              nextTransactionId := nextTransactionId s + 1\<rparr>, e1)"
      using f h ok r ct
      by (simp add: createTransaction_def createTransaction_body_def Let_def deductCredit_def)
    with b ok show ?thesis by auto
  qed
qed

lemma record_transaction_frame:
  "\<exists>r bc n e1. record_transaction L prefix t s e =
           (r, s\<lparr>transactions := transactions s @ [t], blockchain := bc, nextTransactionId := n\<rparr>, e1)"
proof (cases "chain (blockchain s) = []")
  case True
  have "record_transaction L prefix t s e =
          (Inl (RuntimeError ''Blockchain is empty''),
           s\<lparr>transactions := transactions s @ [t], blockchain := blockchain s,
             nextTransactionId := nextTransactionId s\<rparr>, e)"
    using True by (simp add: record_transaction_def addBlock_def getLatestBlock_def)
  then show ?thesis by blast
next
  case False
  from record_transaction_nonempty [OF False, of L prefix t e] show ?thesis by blast
qed

text \<open>The store, the retailers and the products after a call that passes the checks,
  whatever the ledger holds.\<close>

lemma createTransaction_frame:
  assumes f: "findSupplier s supplierId = Some sidx" "findRetailer s retailerId = Some ridx"
             "findProduct s productId = Some pidx" "findTransporter s transporterId = Some tidx"
    and h: "supplierHasProduct (s_productIds (suppliers s ! sidx)) productId"
           "hasEnoughStock (products s ! pidx) quantity"
    and t: "t = fst (costed_transaction s (suppliers s ! sidx) (retailers s ! ridx)
                  (products s ! pidx) (transporters s ! tidx)
                  supplierId retailerId productId transporterId quantity orderType e)"
  shows "\<exists>r bc n e1.
     createTransaction L supplierId retailerId productId transporterId quantity orderType s e =
       (r,
        (if contracts_validate (contracts s) t \<and> r_creditBalance (retailers s ! ridx) \<ge> t_totalCost t
         then s\<lparr>retailers := (retailers s)[ridx := snd (deductCredit (retailers s ! ridx) (t_totalCost t))],
                products := (products s)[pidx := updateStock (products s ! pidx) (- quantity)],
                transactions := transactions s @ [t\<lparr>t_status := ''Completed''\<rparr>],
                blockchain := bc, nextTransactionId := n\<rparr>
         else s\<lparr>transactions := transactions s @ [t\<lparr>t_status := ''Failed''\<rparr>],
                blockchain := bc, nextTransactionId := n\<rparr>), e1)"
proof -
  let ?ct = "costed_transaction s (suppliers s ! sidx) (retailers s ! ridx)
                  (products s ! pidx) (transporters s ! tidx)
                  supplierId retailerId productId transporterId quantity orderType e"
  obtain e0 where ct: "?ct = (t, e0)" using t by (cases ?ct) simp
  consider (policy) "\<not> contracts_validate (contracts s) t"
    | (credit) "contracts_validate (contracts s) t" "r_creditBalance (retailers s ! ridx) < t_totalCost t"
    | (ok) "contracts_validate (contracts s) t" "r_creditBalance (retailers s ! ridx) \<ge> t_totalCost t"
    by fastforce
  then show ?thesis
  proof cases
    case policy
    from record_transaction_frame [of L "''Failed Transaction | ''" "t\<lparr>t_status := ''Failed''\<rparr>" s e0]
    obtain r bc n e1 where r: "record_transaction L ''Failed Transaction | '' (t\<lparr>t_status := ''Failed''\<rparr>) s e0 =
           (r, s\<lparr>transactions := transactions s @ [t\<lparr>t_status := ''Failed''\<rparr>],
              blockchain := bc, nextTransactionId := n\<rparr>, e1)" by blast
    have "\<exists>r'. createTransaction L supplierId retailerId productId transporterId quantity orderType s e =
       (r', s\<lparr>transactions := transactions s @ [t\<lparr>t_status := ''Failed''\<rparr>],
              blockchain := bc, nextTransactionId := n\<rparr>, e1)"
      using f h policy r ct
      by (cases r) (simp_all add: createTransaction_def createTransaction_body_def Let_def)
    with policy show ?thesis by auto
  next
    case credit
    have s_eq: "s\<lparr>retailers := (retailers s)[ridx := retailers s ! ridx]\<rparr> = s" by simp
    from record_transaction_frame [of L "''Failed Transaction (Credit) | ''" "t\<lparr>t_status := ''Failed''\<rparr>" s e0]
    obtain r bc n e1 where r: "record_transaction L ''Failed Transaction (Credit) | '' (t\<lparr>t_status := ''Failed''\<rparr>) s e0 =
           (r, s\<lparr>transactions := transactions s @ [t\<lparr>t_status := ''Failed''\<rparr>],
              blockchain := bc, nextTransactionId := n\<rparr>, e1)" by blast
    have "\<exists>r'. createTransaction L supplierId retailerId productId transporterId quantity orderType s e =
       (r', s\<lparr>transactions := transactions s @ [t\<lparr>t_status := ''Failed''\<rparr>],
              blockchain := bc, nextTransactionId := n\<rparr>, e1)"
      using f h credit r ct s_eq
      by (cases r) (simp_all add: createTransaction_def createTransaction_body_def Let_def deductCredit_def)
    with credit show ?thesis by auto
  next
    case ok
    let ?s2 = "s\<lparr>retailers := (retailers s)[ridx := snd (deductCredit (retailers s ! ridx) (t_totalCost t))],
                products := (products s)[pidx := updateStock (products s ! pidx) (- quantity)]\<rparr>"
    from record_transaction_frame [of L "''Completed Transaction | ''" "t\<lparr>t_status := ''Completed''\<rparr>" ?s2 e0]
    obtain r bc n e1 where r: "record_transaction L ''Completed Transaction | '' (t\<lparr>t_status := ''Completed''\<rparr>) ?s2 e0 =
           (r, ?s2\<lparr>transactions := transactions ?s2 @ [t\<lparr>t_status := ''Completed''\<rparr>],
              blockchain := bc, nextTransactionId := n\<rparr>, e1)" by blast
    have "\<exists>r'. createTransaction L supplierId retailerId productId transporterId quantity orderType s e =
       (r', ?s2\<lparr>transactions := transactions s @ [t\<lparr>t_status := ''Completed''\<rparr>],
              blockchain := bc, nextTransactionId := n\<rparr>, e1)"
      using f h ok r ct
      by (cases r) (simp_all add: createTransaction_def createTransaction_body_def Let_def deductCredit_def)
    with ok show ?thesis by auto
  qed
qed

lemma sint_add_of_nat:
  assumes "sint (c :: cint) + int k < 2 ^ 31"
  shows "sint (c + of_nat k) = sint c + int k"
proof -
  have lo: "- (2 ^ 31) \<le> sint c" using sint_ge [of c] by simp
  have "sint (c + of_nat k) = signed_take_bit 31 (sint c + sint (of_nat k :: cint))"
    by (simp add: sint_word_add)
  also have "\<dots> = signed_take_bit 31 (sint c + signed_take_bit 31 (int k))"
  proof -
    have "(of_nat k :: cint) = word_of_int (int k)" by simp
    then have "sint (of_nat k :: cint) = signed_take_bit 31 (int k)"
      by (simp only: sint_sbintrunc') simp
    then show ?thesis by simp
  qed
  also have "\<dots> = signed_take_bit 31 (sint c + int k)"
    by (metis signed_take_bit_add signed_take_bit_signed_take_bit min.idem)
  also have "\<dots> = sint c + int k"
    using assms lo by (intro signed_take_bit_int_eq_self) auto
  finally show ?thesis .
qed

lemma createTransaction_step:
  assumes ne: "chain (blockchain s) \<noteq> []"
    and p: "passes_checks s a b c d q"
  shows "\<exists>s1 e1 t. createTransaction L a b c d q ot s e = (nextTransactionId s, s1, e1)
          \<and> nextTransactionId s1 = nextTransactionId s + 1
          \<and> chain (blockchain s1) \<noteq> []
          \<and> transactions s1 = transactions s @ [t] \<and> t_id t = nextTransactionId s
          \<and> (t_status t = ''Completed'' \<or> t_status t = ''Failed'')"
proof -
  from p obtain sidx ridx pidx tidx where f:
    "findSupplier s a = Some sidx" "findRetailer s b = Some ridx"
    "findProduct s c = Some pidx" "findTransporter s d = Some tidx"
    "supplierHasProduct (s_productIds (suppliers s ! sidx)) c"
    "hasEnoughStock (products s ! pidx) q"
    unfolding passes_checks_iff by blast
  define t where "t = fst (costed_transaction s (suppliers s ! sidx) (retailers s ! ridx)
                  (products s ! pidx) (transporters s ! tidx) a b c d q ot e)"
  have tid: "t_id t = nextTransactionId s" by (simp add: t_def costed_transaction_fields)
  from createTransaction_constructed [OF f ne t_def, of L]
  show ?thesis using tid by (auto split: if_splits)
qed

lemma run_calls_ids:
  assumes "chain (blockchain s) \<noteq> []"
  shows "case run_calls L cs s e of (outs, s1, e1) \<Rightarrow>
           map snd (filter fst outs) =
             map (\<lambda>k. nextTransactionId s + of_nat k) [0..<length (filter fst outs)]
         \<and> (\<forall>out\<in>set outs. \<not> fst out \<longrightarrow> snd out = - 1)
         \<and> nextTransactionId s1 = nextTransactionId s + of_nat (length (filter fst outs))
         \<and> length (transactions s1) = length (transactions s) + length (filter fst outs)
         \<and> chain (blockchain s1) \<noteq> []"
  using assms
proof (induction cs arbitrary: s e)
  case Nil
  then show ?case by simp
next
  case (Cons c cs)
  let ?p = "passes_checks s (c_supplierId c) (c_retailerId c) (c_productId c)
              (c_transporterId c) (c_quantity c)"
  let ?r = "createTransaction L (c_supplierId c) (c_retailerId c) (c_productId c)
              (c_transporterId c) (c_quantity c) (c_orderType c) s e"
  show ?case
  proof (cases ?p)
    case False
    have r: "?r = (- 1, s, e)" by (rule not_passes_checks [OF False])
    from Cons.IH [OF Cons.prems, of e] show ?thesis
      using False r by (simp add: split_beta)
  next
    case True
    from createTransaction_step [OF Cons.prems True, of L "c_orderType c" e]
    obtain s1 e1 t where r: "?r = (nextTransactionId s, s1, e1)"
      and s1: "nextTransactionId s1 = nextTransactionId s + 1" "chain (blockchain s1) \<noteq> []"
        "transactions s1 = transactions s @ [t]" by blast
    obtain outs s2 e2 where rc: "run_calls L cs s1 e1 = (outs, s2, e2)"
      by (cases "run_calls L cs s1 e1")
    let ?n = "length (filter fst outs)"
    from Cons.IH [OF s1(2), of e1] rc
    have ih: "map snd (filter fst outs) = map (\<lambda>k. nextTransactionId s1 + of_nat k) [0..<?n]"
      "\<forall>out\<in>set outs. \<not> fst out \<longrightarrow> snd out = - 1"
      "nextTransactionId s2 = nextTransactionId s1 + of_nat ?n"
      "length (transactions s2) = length (transactions s1) + ?n"
      "chain (blockchain s2) \<noteq> []" by auto
    have m: "map (\<lambda>k. nextTransactionId s + of_nat k) [0..<Suc ?n] =
              nextTransactionId s # map (\<lambda>k. nextTransactionId s1 + of_nat k) [0..<?n]"
      by (simp add: upt_conv_Cons map_Suc_upt [symmetric] s1(1) add.assoc del: upt_Suc)
    show ?thesis
      using True r rc ih m s1 by (simp add: add.assoc del: upt_Suc)
  qed
qed


lemma supplierHasProduct_iff: "supplierHasProduct ids p \<longleftrightarrow> p \<in> set ids"
  by (induction ids) auto

lemma find_first_None_image: "find_first (\<lambda>x. f x = k) xs = None \<longleftrightarrow> k \<notin> f ` set xs"
  by (auto simp: find_first_None)


lemma sint_sub_exact:
  assumes "sint (q :: cint) \<le> sint a" "sint a - sint q < 2 ^ 31"
  shows "sint (a - q) = sint a - sint q"
proof -
  have "sint (a - q) = signed_take_bit 31 (sint a - sint q)" by (simp add: sint_word_diff)
  also have "\<dots> = sint a - sint q"
    using assms by (intro signed_take_bit_int_eq_self) auto
  finally show ?thesis .
qed


text \<open>Where the stock does stay at least 0: calls whose difference stock - quantity is
  representable, among them all calls with a quantity of at least 0.\<close>

lemma stock_stays_nonnegative:
  assumes nn: "\<forall>p\<in>set (products s). 0 \<le> sint (p_stock p)"
    and rep: "\<forall>p\<in>set (products s). sint (p_stock p) - sint q < 2 ^ 31"
  shows "\<forall>p\<in>set (products (fst (snd (createTransaction L a b c d q ot s e)))). 0 \<le> sint (p_stock p)"
proof (cases "passes_checks s a b c d q")
  case False
  then show ?thesis using nn by (simp add: not_passes_checks)
next
  case True
  then obtain sidx ridx pidx tidx where f:
    "findSupplier s a = Some sidx" "findRetailer s b = Some ridx"
    "findProduct s c = Some pidx" "findTransporter s d = Some tidx"
    "supplierHasProduct (s_productIds (suppliers s ! sidx)) c"
    "hasEnoughStock (products s ! pidx) q"
    unfolding passes_checks_iff by blast
  define t where "t = fst (costed_transaction s (suppliers s ! sidx) (retailers s ! ridx)
                (products s ! pidx) (transporters s ! tidx) a b c d q ot e)"
  have pl: "pidx < length (products s)"
    using find_first_Some [of "\<lambda>p. p_id p = c" "products s" pidx] f(3)
    by (simp add: findProduct_def)
  then have pm: "products s ! pidx \<in> set (products s)" by simp
  have ex: "sint (p_stock (products s ! pidx) - q) = sint (p_stock (products s ! pidx)) - sint q"
    using f(6) rep pm by (intro sint_sub_exact) (simp_all add: hasEnoughStock_def)
  have new: "0 \<le> sint (p_stock (updateStock (products s ! pidx) (- q)))"
    using f(6) ex by (simp add: updateStock_def hasEnoughStock_def)
  have upd: "\<forall>p\<in>set ((products s)[pidx := updateStock (products s ! pidx) (- q)]). 0 \<le> sint (p_stock p)"
  proof
    fix p assume "p \<in> set ((products s)[pidx := updateStock (products s ! pidx) (- q)])"
    then have "p \<in> insert (updateStock (products s ! pidx) (- q)) (set (products s))"
      using set_update_subset_insert by fastforce
    with new nn show "0 \<le> sint (p_stock p)" by auto
  qed
  from createTransaction_frame [OF f t_def, of L] obtain ret bc n e1 where
    r: "createTransaction L a b c d q ot s e =
     (ret,
      (if contracts_validate (contracts s) t \<and> r_creditBalance (retailers s ! ridx) \<ge> t_totalCost t
       then s\<lparr>retailers := (retailers s)[ridx := snd (deductCredit (retailers s ! ridx) (t_totalCost t))],
              products := (products s)[pidx := updateStock (products s ! pidx) (- q)],
              transactions := transactions s @ [t\<lparr>t_status := ''Completed''\<rparr>],
              blockchain := bc, nextTransactionId := n\<rparr>
       else s\<lparr>transactions := transactions s @ [t\<lparr>t_status := ''Failed''\<rparr>],
              blockchain := bc, nextTransactionId := n\<rparr>), e1)" by blast
  show ?thesis
    using r nn upd by (simp split: if_splits)
qed

section \<open>Evaluating the examples\<close>

lemma example_distance: "calculateDistance 0 0 3 4 = 555"
proof -
  have "sqrt 25 = 5" by (rule real_sqrt_unique) simp_all
  then show ?thesis by (simp add: calculateDistance_def)
qed

lemmas example_defs = example_sys_def example_lib_def example_env_def example_genesis_def
  example_call_def example_sys2_def example_sys3_def

lemmas pipeline_defs = createTransaction_def createTransaction_body_def passes_checks_def
  findSupplier_def findRetailer_def findProduct_def findTransporter_def hasEnoughStock_def
  costed_transaction_def new_Transaction_def getCurrentTimestamp_def calculateTotalCost_def
  calculateTransportCost_def deductCredit_def updateStock_def record_transaction_def
  addBlock_def getLatestBlock_def new_Block_def generateHash_def getBlockData_def


section \<open>Facts about restoring\<close>

lemma kept_simps [simp]:
  "kept f [] = []"
  "kept f (l # ls) = (case f l of Inl err \<Rightarrow> kept f ls | Inr x \<Rightarrow> x # kept f ls)"
  by (simp_all add: kept_def List.map_filter_simps split: sum.splits)

lemma warnings_simps [simp]:
  "warnings msg f [] = []"
  "warnings msg f (l # ls) =
     (case f l of Inl err \<Rightarrow> (msg @ what err) # warnings msg f ls | Inr x \<Rightarrow> warnings msg f ls)"
  by (simp_all add: warnings_def List.map_filter_simps split: sum.splits)

lemma kept_append: "kept f (xs @ ys) = kept f xs @ kept f ys"
  by (induction xs) (auto split: sum.splits)

lemma warnings_append: "warnings msg f (xs @ ys) = warnings msg f xs @ warnings msg f ys"
  by (induction xs) (auto split: sum.splits)

lemma kept_skip: "f bad = Inl err \<Longrightarrow> kept f (pre @ bad # post) = kept f pre @ kept f post"
  by (simp add: kept_append)

lemma warnings_skip:
  "f bad = Inl err \<Longrightarrow>
   warnings msg f (pre @ bad # post) = warnings msg f pre @ [msg @ what err] @ warnings msg f post"
  by (simp add: warnings_append)

text \<open>The loop with a deserializer that does not touch the environment.\<close>

lemma load_lines_pure:
  "load_lines msg (\<lambda>line e1. (f line, e1)) lines acc cerr e =
     (acc @ kept f lines, cerr @ warnings msg f lines, e)"
  by (induction lines arbitrary: acc cerr) (auto split: sum.splits)

text \<open>The loop with a deserializer whose result does not depend on the environment.\<close>

lemma load_lines_indep:
  assumes "\<And>line e1 e2. fst (deser line e1) = fst (deser line e2)"
  shows "fst (load_lines msg deser lines acc cerr e) = acc @ kept (\<lambda>line. fst (deser line e0)) lines
       \<and> fst (snd (load_lines msg deser lines acc cerr e)) =
           cerr @ warnings msg (\<lambda>line. fst (deser line e0)) lines"
proof (induction lines arbitrary: acc cerr e)
  case Nil
  show ?case by simp
next
  case (Cons l ls)
  obtain r e1 where d: "deser l e = (r, e1)" by (cases "deser l e")
  have r: "fst (deser l e0) = r" using assms [of l e0 e] d by simp
  show ?case
  proof (cases r)
    case (Inl err)
    with d r Cons.IH [of acc "cerr @ [msg @ what err]" e1] show ?thesis by simp
  next
    case (Inr x)
    with d r Cons.IH [of "acc @ [x]" cerr e1] show ?thesis by simp
  qed
qed

lemma Transaction_deserialize_indep:
  "fst (Transaction_deserialize L line e1) = fst (Transaction_deserialize L line e2)"
  by (simp add: Transaction_deserialize_def Let_def new_Transaction_def getCurrentTimestamp_def
        split_beta bind_err_def split: sum.splits)

lemma short_lines:
  "length (split_on CHR ''|'' line) < 4 \<Longrightarrow>
     Product_deserialize L line = Inl (RuntimeError ''Invalid product data format'')"
  "length (split_on CHR ''|'' line) < 6 \<Longrightarrow>
     Supplier_deserialize L line = Inl (RuntimeError ''Invalid supplier data format'')"
  "length (split_on CHR ''|'' line) < 7 \<Longrightarrow>
     Retailer_deserialize L line = Inl (RuntimeError ''Invalid retailer data format'')"
  "length (split_on CHR ''|'' line) < 5 \<Longrightarrow>
     Transporter_deserialize L line = Inl (RuntimeError ''Invalid transporter data format'')"
  "length (split_on CHR ''|'' line) < 12 \<Longrightarrow>
     Transaction_deserialize L line e = (Inl (RuntimeError ''Invalid transaction data format''), e)"
  "length (split_on CHR ''|'' line) < 5 \<Longrightarrow>
     Block_deserialize L line e = (Inl (RuntimeError ''Invalid block data format''), e)"
  by (simp_all add: Product_deserialize_def Supplier_deserialize_def Retailer_deserialize_def
        Transporter_deserialize_def Transaction_deserialize_def Block_deserialize_def)

text \<open>The block loop stops at the first line that throws.\<close>

lemma loadFromFile_lines_fails:
  assumes "\<And>e1. fst (Block_deserialize L bad e1) = Inl err"
  shows "fst (loadFromFile_lines L (pre @ bad # post) bc e) = False"
proof (induction pre arbitrary: bc e)
  case Nil
  obtain r e1 where d: "Block_deserialize L bad e = (r, e1)" by (cases "Block_deserialize L bad e")
  with assms [of e] have "r = Inl err" by simp
  with d show ?case by simp
next
  case (Cons l ls)
  obtain r e1 where d: "Block_deserialize L l e = (r, e1)" by (cases "Block_deserialize L l e")
  show ?case
  proof (cases r)
    case (Inl a)
    with d show ?thesis by simp
  next
    case (Inr b)
    with d Cons.IH [of "bc\<lparr>chain := chain bc @ [b]\<rparr>" e1] show ?thesis by simp
  qed
qed

lemma loadFromFile_lines_ignores_rest:
  assumes "\<And>e1. fst (Block_deserialize L bad e1) = Inl err"
  shows "loadFromFile_lines L (pre @ bad # post) bc e = loadFromFile_lines L (pre @ [bad]) bc e"
proof (induction pre arbitrary: bc e)
  case Nil
  obtain r e1 where d: "Block_deserialize L bad e = (r, e1)" by (cases "Block_deserialize L bad e")
  with assms [of e] have "r = Inl err" by simp
  with d show ?case by simp
next
  case (Cons l ls)
  obtain r e1 where d: "Block_deserialize L l e = (r, e1)" by (cases "Block_deserialize L l e")
  show ?case
  proof (cases r)
    case (Inl a)
    with d show ?thesis by simp
  next
    case (Inr b)
    with d Cons.IH [of "bc\<lparr>chain := chain bc @ [b]\<rparr>" e1] show ?thesis by simp
  qed
qed

lemma loadFromFile_stop:
  assumes "length (split_on CHR ''|'' bad) < 5"
  shows "fst (loadFromFile L (Some (pre @ bad # post)) bc e) = False
       \<and> loadFromFile L (Some (pre @ bad # post)) bc e = loadFromFile L (Some (pre @ [bad])) bc e"
proof -
  have "fst (Block_deserialize L bad e1) = Inl (RuntimeError ''Invalid block data format'')" for e1
    using assms by (simp add: short_lines)
  note d = this
  have f: "fst (loadFromFile_lines L (pre @ bad # post) (bc\<lparr>chain := []\<rparr>) e) = False"
    "fst (loadFromFile_lines L (pre @ [bad]) (bc\<lparr>chain := []\<rparr>) e) = False"
    using loadFromFile_lines_fails [of L bad, OF d] by blast+
  have g: "loadFromFile_lines L (pre @ bad # post) (bc\<lparr>chain := []\<rparr>) e =
           loadFromFile_lines L (pre @ [bad]) (bc\<lparr>chain := []\<rparr>) e"
    using loadFromFile_lines_ignores_rest [of L bad, OF d] by blast
  obtain bc1 e1 where r: "loadFromFile_lines L (pre @ [bad]) (bc\<lparr>chain := []\<rparr>) e = (False, bc1, e1)"
    using f(2) by (cases "loadFromFile_lines L (pre @ [bad]) (bc\<lparr>chain := []\<rparr>) e") auto
  show ?thesis
    by (simp add: loadFromFile_def g r)
qed

lemma loadData_result:
  "fst (loadData L fs s cerr e) = fst (loadFromFile L (blockchain_dat fs) (blockchain s) e)"
  by (simp add: loadData_def Let_def split_beta split: prod.splits bool.splits)

lemma load_transactions_skip:
  assumes "length (split_on CHR ''|'' bad) < 12"
  shows "fst (load_transactions L (pre @ bad # post) cerr e) =
           fst (load_transactions L pre cerr e) @ fst (load_transactions L post cerr e)"
proof -
  let ?f = "\<lambda>line. fst (Transaction_deserialize L line e)"
  have b: "?f bad = Inl (RuntimeError ''Invalid transaction data format'')"
    using assms by (simp add: short_lines)
  have "fst (load_transactions L ls cerr e) = kept ?f ls" for ls
    using load_lines_indep [of "Transaction_deserialize L" _ ls "[]" cerr e e,
        OF Transaction_deserialize_indep]
    by (simp add: load_transactions_def)
  then show ?thesis using kept_skip [of ?f bad _ pre post, OF b] by simp
qed


section \<open>Facts about the inventory allocator\<close>












section \<open>Facts about the route optimizer\<close>

lemma DBL_MAX_big: "(100000 :: real) < DBL_MAX"
proof -
  have "(2::real) ^ 17 \<le> 2 ^ 1023" by (rule power_increasing) simp_all
  moreover have "(1::real) \<le> 2 - 1 / 2 ^ 52" by simp
  ultimately have "(2::real) ^ 17 * 1 \<le> 2 ^ 1023 * (2 - 1 / 2 ^ 52)"
    by (intro mult_mono) simp_all
  then show ?thesis by (simp add: DBL_MAX_def mult.commute)
qed

lemma calculateDistance_bound:
  assumes "\<bar>lat1\<bar> \<le> 90" "\<bar>lon1\<bar> \<le> 180" "\<bar>lat2\<bar> \<le> 90" "\<bar>lon2\<bar> \<le> 180"
  shows "calculateDistance lat1 lon1 lat2 lon2 < DBL_MAX"
proof -
  have "sqrt ((lat2 - lat1)\<^sup>2 + (lon2 - lon1)\<^sup>2) \<le> \<bar>lat2 - lat1\<bar> + \<bar>lon2 - lon1\<bar>"
    by (rule sqrt_sum_squares_le_sum_abs)
  also have "\<dots> \<le> 540" using assms by linarith
  finally have "calculateDistance lat1 lon1 lat2 lon2 \<le> 540 * 111"
    by (simp add: calculateDistance_def)
  with DBL_MAX_big show ?thesis by linarith
qed

lemma calculateDistance_sym:
  "calculateDistance lat1 lon1 lat2 lon2 = calculateDistance lat2 lon2 lat1 lon1"
  by (simp add: calculateDistance_def power2_commute)

text \<open>What the program computes is the planar distance of the specification.\<close>

lemma calculateDistance_planar:
  "calculateDistance lat1 lon1 lat2 lon2 = planar_km lat1 lon1 lat2 lon2"
  by (simp add: calculateDistance_def planar_km_def)

lemma supplierDistances_planar:
  "supplierDistances supplier rs j = supplier_to_retailer supplier rs j"
  by (simp add: supplierDistances_def supplier_to_retailer_def calculateDistance_planar)

lemma distances_planar:
  "i \<noteq> j \<Longrightarrow> distances rs i j = retailerDistance rs i j"
  by (simp add: distances_def retailerDistance_def calculateDistance_planar)

text \<open>The state of a minimum search after the indices below \<open>k\<close>.\<close>

lemma nearer_invariant:
  "case foldl (nearer eligible d) (0, DBL_MAX) [0..<k] of (b, m) \<Rightarrow>
     (\<forall>j<k. eligible j \<longrightarrow> m \<le> d j) \<and>
     ((m = DBL_MAX \<and> b = 0) \<or>
      (b < k \<and> eligible b \<and> d b = m \<and> m < DBL_MAX \<and> (\<forall>j<b. eligible j \<longrightarrow> m < d j)))"
proof (induction k)
  case 0
  show ?case by simp
next
  case (Suc k)
  obtain b m where s: "foldl (nearer eligible d) (0, DBL_MAX) [0..<k] = (b, m)"
    by (cases "foldl (nearer eligible d) (0, DBL_MAX) [0..<k]")
  from Suc s have lo: "\<forall>j<k. eligible j \<longrightarrow> m \<le> d j"
    and alt: "(m = DBL_MAX \<and> b = 0) \<or>
      (b < k \<and> eligible b \<and> d b = m \<and> m < DBL_MAX \<and> (\<forall>j<b. eligible j \<longrightarrow> m < d j))"
    by auto
  have le: "m \<le> DBL_MAX" using alt by auto
  show ?case
  proof (cases "eligible k \<and> d k < m")
    case True
    then have st: "foldl (nearer eligible d) (0, DBL_MAX) [0..<Suc k] = (k, d k)"
      using s by (simp add: nearer_def)
    have "\<forall>j<Suc k. eligible j \<longrightarrow> d k \<le> d j"
      using lo True by (auto simp: less_Suc_eq) 
    moreover have "\<forall>j<k. eligible j \<longrightarrow> d k < d j" using lo True by fastforce
    moreover have "d k < DBL_MAX" using True le by linarith
    ultimately show ?thesis using st True by simp
  next
    case False
    then have st: "foldl (nearer eligible d) (0, DBL_MAX) [0..<Suc k] = (b, m)"
      using s by (auto simp: nearer_def)
    have "\<forall>j<Suc k. eligible j \<longrightarrow> m \<le> d j"
      using lo False by (auto simp: less_Suc_eq)
    then show ?thesis using st alt by auto
  qed
qed

lemma nearest_spec:
  assumes some: "\<exists>j<n. eligible j"
    and fin: "\<forall>j<n. eligible j \<longrightarrow> d j < DBL_MAX"
  shows "nearest n eligible d < n \<and> eligible (nearest n eligible d)
       \<and> (\<forall>j<n. eligible j \<longrightarrow> d (nearest n eligible d) \<le> d j)
       \<and> (\<forall>j<nearest n eligible d. eligible j \<longrightarrow> d (nearest n eligible d) < d j)"
proof -
  obtain b m where s: "foldl (nearer eligible d) (0, DBL_MAX) [0..<n] = (b, m)"
    by (cases "foldl (nearer eligible d) (0, DBL_MAX) [0..<n]")
  from nearer_invariant [where eligible = eligible and d = d and k = n] s have lo: "\<forall>j<n. eligible j \<longrightarrow> m \<le> d j"
    and alt: "(m = DBL_MAX \<and> b = 0) \<or>
      (b < n \<and> eligible b \<and> d b = m \<and> m < DBL_MAX \<and> (\<forall>j<b. eligible j \<longrightarrow> m < d j))"
    by auto
  from some obtain j where j: "j < n" "eligible j" by blast
  with lo fin have "m < DBL_MAX" by fastforce
  with alt have "b < n \<and> eligible b \<and> d b = m \<and> (\<forall>j<b. eligible j \<longrightarrow> m < d j)" by auto
  moreover have "nearest n eligible d = b" using s by (simp add: nearest_def)
  ultimately show ?thesis using lo by auto
qed

lemma greedy_label:
  "foldl (greedy_step label rs) (c, v, map label idxs) js =
     (case foldl (greedy_step (\<lambda>i. i) rs) (c, v, idxs) js of
        (c1, v1, idxs1) \<Rightarrow> (c1, v1, map label idxs1))"
proof (induction js arbitrary: c v idxs)
  case Nil
  show ?case by simp
next
  case (Cons j js)
  let ?nxt = "nearest (length rs) (\<lambda>j. \<not> v ! j) (distances rs c)"
  from Cons [of ?nxt "v[?nxt := True]" "idxs @ [?nxt]"] show ?case
    by (simp add: Let_def)
qed

lemma greedy_route_label:
  "greedy_route label supplier rs = map label (greedy_route (\<lambda>i. i) supplier rs)"
proof -
  let ?f = "nearest (length rs) (\<lambda>j. True) (supplierDistances supplier rs)"
  from greedy_label [of label rs ?f "(replicate (length rs) False)[?f := True]" "[?f]" "[1..<length rs]"]
  show ?thesis by (simp add: greedy_route_def Let_def split_beta)
qed

lemma unvisited_exists:
  assumes "set idxs \<subseteq> {..<n}" "length idxs < n"
  shows "\<exists>j<n. j \<notin> set idxs"
proof (rule ccontr)
  assume "\<not> (\<exists>j<n. j \<notin> set idxs)"
  then have "{..<n} \<subseteq> set idxs" by auto
  then have "card {..<n} \<le> card (set idxs)" by (intro card_mono) simp_all
  also have "\<dots> \<le> length idxs" by (rule card_length)
  finally show False using assms(2) by simp
qed

lemma greedy_invariant:
  assumes fin: "\<forall>i<length rs. \<forall>j<length rs. distances rs i j < DBL_MAX"
    and f: "f < length rs"
    and k: "k < length rs"
  shows "case foldl (greedy_step (\<lambda>i. i) rs) (f, (replicate (length rs) False)[f := True], [f])
                [1..<Suc k] of
           (cur, visited, idxs) \<Rightarrow>
             length idxs = Suc k \<and> distinct idxs \<and> set idxs \<subseteq> {..<length rs} \<and>
             length visited = length rs \<and> (\<forall>j<length rs. visited ! j \<longleftrightarrow> j \<in> set idxs) \<and>
             cur = last idxs \<and> idxs ! 0 = f \<and>
             (\<forall>p. 0 < p \<and> p < length idxs \<longrightarrow>
                  nearest_unvisited rs (take p idxs) (idxs ! (p - 1)) (idxs ! p))"
  using k
proof (induction k)
  case 0
  have "\<forall>j<length rs. ((replicate (length rs) False)[f := True]) ! j \<longleftrightarrow> j = f"
    using f by (auto simp: nth_list_update split: if_splits)
  with f show ?case by simp
next
  case (Suc k)
  let ?n = "length rs"
  obtain cur visited idxs where s:
    "foldl (greedy_step (\<lambda>i. i) rs) (f, (replicate ?n False)[f := True], [f]) [1..<Suc k]
       = (cur, visited, idxs)"
    by (cases "foldl (greedy_step (\<lambda>i. i) rs) (f, (replicate ?n False)[f := True], [f]) [1..<Suc k]")
      auto
  from Suc.IH s Suc.prems have inv:
    "length idxs = Suc k" "distinct idxs" "set idxs \<subseteq> {..<?n}" "length visited = ?n"
    "\<forall>j<?n. visited ! j \<longleftrightarrow> j \<in> set idxs" "cur = last idxs" "idxs ! 0 = f"
    "\<forall>p. 0 < p \<and> p < length idxs \<longrightarrow>
         nearest_unvisited rs (take p idxs) (idxs ! (p - 1)) (idxs ! p)"
    by auto
  have ne: "idxs \<noteq> []" using inv(1) by auto
  have cur_in: "cur \<in> set idxs" using inv(6) ne by simp
  then have cur: "cur < ?n" "cur \<in> set idxs" using inv(3) by auto
  define nxt where "nxt = nearest ?n (\<lambda>j. \<not> visited ! j) (distances rs cur)"
  have some: "\<exists>j<?n. \<not> visited ! j"
    using unvisited_exists [OF inv(3)] inv(1,5) Suc.prems by auto
  have fin': "\<forall>j<?n. \<not> visited ! j \<longrightarrow> distances rs cur j < DBL_MAX"
    using fin cur(1) by blast
  from nearest_spec [of ?n "\<lambda>j. \<not> visited ! j" "distances rs cur", OF some fin', folded nxt_def]
  have nx: "nxt < ?n" "\<not> visited ! nxt"
    "\<forall>j<?n. \<not> visited ! j \<longrightarrow> distances rs cur nxt \<le> distances rs cur j"
    "\<forall>j<nxt. \<not> visited ! j \<longrightarrow> distances rs cur nxt < distances rs cur j"
    by blast+
  have nxn: "nxt \<notin> set idxs" using nx(1,2) inv(5) by blast
  have st: "foldl (greedy_step (\<lambda>i. i) rs) (f, (replicate ?n False)[f := True], [f])
              [1..<Suc (Suc k)] = (nxt, visited[nxt := True], idxs @ [nxt])"
    using s by (simp add: Let_def nxt_def)
  have upd: "(visited[nxt := True]) ! j = (if nxt = j then True else visited ! j)" for j
    using nx(1) inv(4) by (simp add: nth_list_update)
  have v: "\<forall>j<?n. (visited[nxt := True]) ! j \<longleftrightarrow> j \<in> set (idxs @ [nxt])"
    using inv(5) by (auto simp: upd)
  have d_eq: "distances rs cur j = retailerDistance rs cur j" if "j \<notin> set idxs" for j
    using that cur(2) by (intro distances_planar) auto
  have new: "nearest_unvisited rs idxs cur nxt"
    unfolding nearest_unvisited_def
  proof (intro conjI allI impI)
    show "nxt < ?n" by (rule nx(1))
    show "nxt \<notin> set idxs" by (rule nxn)
  next
    fix j assume j: "j < ?n" "j \<notin> set idxs"
    then have "\<not> visited ! j" using inv(5) by blast
    with nx(3) j(1) have "distances rs cur nxt \<le> distances rs cur j" by blast
    then show "retailerDistance rs cur nxt \<le> retailerDistance rs cur j"
      using d_eq [OF j(2)] d_eq [OF nxn] by simp
  next
    fix j assume j: "j < ?n" "j \<notin> set idxs" "j < nxt"
    then have "\<not> visited ! j" using inv(5) by blast
    with nx(4) j(3) have "distances rs cur nxt < distances rs cur j" by blast
    then show "retailerDistance rs cur nxt < retailerDistance rs cur j"
      using d_eq [OF j(2)] d_eq [OF nxn] by simp
  qed
  have g: "\<forall>p. 0 < p \<and> p < length (idxs @ [nxt]) \<longrightarrow>
         nearest_unvisited rs (take p (idxs @ [nxt])) ((idxs @ [nxt]) ! (p - 1)) ((idxs @ [nxt]) ! p)"
  proof (intro allI impI)
    fix p assume p: "0 < p \<and> p < length (idxs @ [nxt])"
    show "nearest_unvisited rs (take p (idxs @ [nxt])) ((idxs @ [nxt]) ! (p - 1)) ((idxs @ [nxt]) ! p)"
    proof (cases "p < length idxs")
      case True
      with p inv(8) have "nearest_unvisited rs (take p idxs) (idxs ! (p - 1)) (idxs ! p)" by blast
      moreover have "p - 1 < length idxs" using True by simp
      ultimately show ?thesis using True by (simp add: nth_append)
    next
      case False
      with p have pe: "p = length idxs" by simp
      have "(idxs @ [nxt]) ! (p - 1) = cur"
        using pe ne inv(6) by (simp add: nth_append last_conv_nth)
      with new pe show ?thesis by simp
    qed
  qed
  show ?case
    unfolding st
    using inv(1,2,3,4,7) nx(1) nxn v g ne
    by (simp add: nth_append)
qed

lemma index_map_lookup:
  assumes "inj_on g {..<k}" "i < k"
  shows "foldl (\<lambda>m i. m(g i \<mapsto> i)) m0 [0..<k] (g i) = Some i"
  using assms
proof (induction k)
  case 0
  then show ?case by simp
next
  case (Suc k)
  have inj: "inj_on g {..<k}" using Suc.prems(1) by (rule inj_on_subset) auto
  show ?case
  proof (cases "i = k")
    case True
    then show ?thesis by simp
  next
    case False
    with Suc.prems(2) have ik: "i < k" by simp
    have "g i \<noteq> g k"
      using Suc.prems(1) ik by (auto simp: inj_on_def)
    with Suc.IH [OF inj ik] show ?thesis by simp
  qed
qed

lemma idToIndex_at:
  assumes "distinct (map r_id rs)" "i < length rs"
  shows "index_at (idToIndex_of rs) (r_id (rs ! i)) = i"
proof -
  have "inj_on (\<lambda>i. r_id (rs ! i)) {..<length rs}"
  proof (rule inj_onI)
    fix a b assume ab: "a \<in> {..<length rs}" "b \<in> {..<length rs}" "r_id (rs ! a) = r_id (rs ! b)"
    then have "map r_id rs ! a = map r_id rs ! b" by simp
    with nth_eq_iff_index_eq [OF assms(1), of a b] ab(1,2) show "a = b" by simp
  qed
  from index_map_lookup [OF this assms(2), of Map.empty]
  show ?thesis by (simp add: index_at_def idToIndex_of_def)
qed

lemma foldl_add_sum_list:
  "foldl (\<lambda>subtotal i. subtotal + g i) a xs = a + sum_list (map g xs)"
  for a :: real
  by (induction xs arbitrary: a) (simp_all add: add.assoc)

lemma totalDistance_of_stops:
  assumes ids: "distinct (map r_id rs)"
    and st: "distinct stops" "set stops \<subseteq> {..<length rs}" "stops \<noteq> []"
  shows "totalDistance_of supplier rs (map (\<lambda>i. r_id (rs ! i)) stops) = tour_length supplier rs stops"
proof -
  let ?route = "map (\<lambda>i. r_id (rs ! i)) stops"
  let ?ix = "index_at (idToIndex_of rs)"
  have ix: "?ix (?route ! p) = stops ! p" if "p < length stops" for p
  proof -
    have "stops ! p < length rs" using st(2) that by (auto simp: subset_iff)
    with that show ?thesis by (simp add: idToIndex_at [OF ids])
  qed
  have l: "?ix (last ?route) = last stops"
  proof -
    have "last ?route = ?route ! (length stops - 1)" using st(3) by (simp add: last_conv_nth)
    moreover have "length stops - 1 < length stops" using st(3) by simp
    ultimately show ?thesis using ix st(3) by (simp add: last_conv_nth)
  qed
  have z: "?ix (?route ! 0) = stops ! 0" using ix [of 0] st(3) by simp
  have legs: "map (\<lambda>i. distances rs (?ix (?route ! i)) (?ix (?route ! (i + 1)))) [0..<length stops - 1]
            = map (\<lambda>p. retailerDistance rs (stops ! p) (stops ! (p + 1))) [0..<length stops - 1]"
  proof (rule map_cong [OF refl])
    fix p assume "p \<in> set [0..<length stops - 1]"
    then have p: "p < length stops" "p + 1 < length stops" by auto
    have "stops ! p \<noteq> stops ! (p + 1)"
      using st(1) p by (simp add: nth_eq_iff_index_eq)
    then show "distances rs (?ix (?route ! p)) (?ix (?route ! (p + 1)))
                = retailerDistance rs (stops ! p) (stops ! (p + 1))"
      using ix [OF p(1)] ix [OF p(2)] by (simp add: distances_planar)
  qed
  have "totalDistance_of supplier rs ?route =
          supplierDistances supplier rs (?ix (?route ! 0))
          + sum_list (map (\<lambda>i. distances rs (?ix (?route ! i)) (?ix (?route ! (i + 1))))
                       [0..<length stops - 1])
          + calculateDistance (r_latitude (rs ! ?ix (last ?route))) (r_longitude (rs ! ?ix (last ?route)))
              (s_latitude supplier) (s_longitude supplier)"
    unfolding totalDistance_of_def Let_def foldl_add_sum_list length_map ..
  also have "\<dots> = tour_length supplier rs stops"
    unfolding tour_length_def legs l z supplierDistances_planar retailer_to_supplier_def
      calculateDistance_planar ..
  finally show ?thesis .
qed

lemma supplierDistances_bound:
  assumes "\<forall>r\<in>set rs. \<bar>r_latitude r\<bar> \<le> 90 \<and> \<bar>r_longitude r\<bar> \<le> 180"
    and "\<bar>s_latitude supplier\<bar> \<le> 90 \<and> \<bar>s_longitude supplier\<bar> \<le> 180"
    and "j < length rs"
  shows "supplierDistances supplier rs j < DBL_MAX"
  using assms by (auto simp: supplierDistances_def intro!: calculateDistance_bound)

lemma distances_bound:
  assumes "\<forall>r\<in>set rs. \<bar>r_latitude r\<bar> \<le> 90 \<and> \<bar>r_longitude r\<bar> \<le> 180"
    and "i < length rs" "j < length rs"
  shows "distances rs i j < DBL_MAX"
proof (cases "i = j")
  case True
  then show ?thesis using DBL_MAX_big by (simp add: distances_def)
next
  case False
  then show ?thesis using assms by (auto simp: distances_def intro!: calculateDistance_bound)
qed

text \<open>The route by positions: what the greedy search visits, in order.\<close>

lemma greedy_route_stops:
  assumes n: "2 \<le> length rs"
    and rc: "\<forall>r\<in>set rs. \<bar>r_latitude r\<bar> \<le> 90 \<and> \<bar>r_longitude r\<bar> \<le> 180"
    and sc: "\<bar>s_latitude supplier\<bar> \<le> 90 \<and> \<bar>s_longitude supplier\<bar> \<le> 180"
    and stops: "stops = greedy_route (\<lambda>i. i) supplier rs"
  shows "distinct stops \<and> set stops = {0..<length rs}
       \<and> nearest_to_supplier supplier rs (stops ! 0)
       \<and> (\<forall>p. 0 < p \<and> p < length rs \<longrightarrow>
              nearest_unvisited rs (take p stops) (stops ! (p - 1)) (stops ! p))"
proof -
  let ?n = "length rs"
  let ?f = "nearest ?n (\<lambda>j. True) (supplierDistances supplier rs)"
  have "0 < ?n" using n by linarith
  then have some: "\<exists>j<?n. True" by blast
  have finS: "\<forall>j<?n. True \<longrightarrow> supplierDistances supplier rs j < DBL_MAX"
    using supplierDistances_bound [OF rc sc] by blast
  from nearest_spec [of ?n "\<lambda>j. True" "supplierDistances supplier rs", OF some finS]
  have f: "?f < ?n" and fmin: "nearest_to_supplier supplier rs ?f"
    by (auto simp: nearest_to_supplier_def supplierDistances_planar [symmetric])
  have fin: "\<forall>i<?n. \<forall>j<?n. distances rs i j < DBL_MAX"
    using distances_bound [OF rc] by blast
  have k: "?n - 1 < ?n" using n by simp
  have "Suc (?n - 1) = ?n" using n by simp
  then have upt: "[1..<Suc (?n - 1)] = [1..<?n]" by (simp only:)
  obtain cur visited idxs where s:
    "foldl (greedy_step (\<lambda>i. i) rs) (?f, (replicate ?n False)[?f := True], [?f]) [1..<?n]
       = (cur, visited, idxs)"
    by (cases "foldl (greedy_step (\<lambda>i. i) rs) (?f, (replicate ?n False)[?f := True], [?f]) [1..<?n]")
      auto
  from greedy_invariant [OF fin f k] s upt have inv:
    "length idxs = ?n" "distinct idxs" "set idxs \<subseteq> {..<?n}" "idxs ! 0 = ?f"
    "\<forall>p. 0 < p \<and> p < length idxs \<longrightarrow>
         nearest_unvisited rs (take p idxs) (idxs ! (p - 1)) (idxs ! p)"
    using n by auto
  have eq: "stops = idxs" using s stops by (simp add: greedy_route_def Let_def)
  have "card (set idxs) = card {..<?n}" using inv(1,2) by (simp add: distinct_card)
  with inv(3) have "set idxs = {..<?n}" by (intro card_subset_eq) simp_all
  then have "set idxs = {0..<?n}" by (simp add: lessThan_atLeast0)
  with inv fmin eq show ?thesis by simp
qed

text \<open>What the optimizer returns once the supplier and the transporter are found.\<close>

lemma optimizeDistributionRoute_returns:
  assumes "2 \<le> length (retailers s)" "findSupplier s supplierId = Some sidx"
    "findTransporter s transporterId = Some tidx" "chain (blockchain s) \<noteq> []"
  shows "fst (optimizeDistributionRoute L supplierId transporterId s e) =
           Inr (route_of (suppliers s ! sidx) (retailers s),
                totalDistance_of (suppliers s ! sidx) (retailers s)
                  (route_of (suppliers s ! sidx) (retailers s)))"
  using assms by (simp add: optimizeDistributionRoute_def Let_def addBlock_nonempty)

text \<open>The two searches of a route over two retailers, written out.\<close>

lemma upt_0_2: "[0..<2] = [0, Suc 0]"
  by (simp add: numeral_2_eq_2)

lemma upt_1_2: "[1..<2] = [Suc 0]"
  by (simp add: numeral_2_eq_2)

lemma nearest_2:
  "nearest 2 eligible d =
     fst (nearer eligible d (nearer eligible d (0, DBL_MAX) 0) (Suc 0))"
  by (simp add: nearest_def upt_0_2)

lemma greedy_route_2:
  assumes "length rs = 2"
  shows "greedy_route label supplier rs =
     (let currentIndex = nearest 2 (\<lambda>j. True) (supplierDistances supplier rs);
          visited = [False, False][currentIndex := True];
          nextIndex = nearest 2 (\<lambda>j. \<not> visited ! j) (distances rs currentIndex)
      in [label currentIndex, label nextIndex])"
  using assms by (simp add: greedy_route_def Let_def upt_1_2 numeral_2_eq_2)

lemma idToIndex_of_2:
  assumes "length rs = 2"
  shows "index_at (idToIndex_of rs) k =
           (if k = r_id (rs ! Suc 0) then Suc 0 else 0)"
  using assms by (simp add: idToIndex_of_def index_at_def upt_0_2)

lemma totalDistance_of_2:
  assumes "length rs = 2"
  shows "totalDistance_of supplier rs [a, b] =
     (let idToIndex = index_at (idToIndex_of rs);
          lastRetailer = rs ! idToIndex b
      in supplierDistances supplier rs (idToIndex a)
         + distances rs (idToIndex a) (idToIndex b)
         + calculateDistance (r_latitude lastRetailer) (r_longitude lastRetailer)
             (s_latitude supplier) (s_longitude supplier))"
  by (simp add: totalDistance_of_def Let_def)

lemma tour_length_2:
  "tour_length supplier rs [a, b] =
     supplier_to_retailer supplier rs a + retailerDistance rs a b + retailer_to_supplier supplier rs b"
  by (simp add: tour_length_def)

text \<open>A distance from a latitude far outside the valid range is not below \<open>DBL_MAX\<close>.\<close>

lemma far_distance:
  assumes "2 ^ 1020 - 3 \<le> \<bar>lat2 - lat1\<bar>"
  shows "\<not> calculateDistance lat1 lon1 lat2 lon2 < DBL_MAX"
proof -
  have t: "(4::real) \<le> 2 ^ 1020"
  proof -
    have "(2::real) ^ 2 \<le> 2 ^ 1020" by (rule power_increasing) simp_all
    then show ?thesis by simp
  qed
  have "DBL_MAX \<le> 2 * 2 ^ 1023" by (simp add: DBL_MAX_def)
  also have "(2::real) * 2 ^ 1023 = 16 * 2 ^ 1020"
  proof -
    have "(2::real) ^ 1024 = 2 ^ 4 * 2 ^ 1020" by (simp flip: power_add)
    then show ?thesis by simp
  qed
  also have "\<dots> \<le> (2 ^ 1020 - 3) * 111" using t by simp
  also have "\<dots> \<le> \<bar>lat2 - lat1\<bar> * 111" using assms by simp
  finally have a: "DBL_MAX \<le> \<bar>lat2 - lat1\<bar> * 111" .
  have "\<bar>lat2 - lat1\<bar> = sqrt ((lat2 - lat1)\<^sup>2)" by simp
  also have "\<dots> \<le> sqrt ((lat2 - lat1)\<^sup>2 + (lon2 - lon1)\<^sup>2)"
    by (rule real_sqrt_le_mono) simp
  finally have "\<bar>lat2 - lat1\<bar> * 111 \<le> calculateDistance lat1 lon1 lat2 lon2"
    by (simp add: calculateDistance_def)
  with a show ?thesis by linarith
qed

section \<open>Evaluating the route examples\<close>

lemma sqrt_25: "sqrt 25 = 5" by (rule real_sqrt_unique) simp_all
lemma sqrt_16: "sqrt 16 = 4" by (rule real_sqrt_unique) simp_all
lemma sqrt_9: "sqrt 9 = 3" by (rule real_sqrt_unique) simp_all

lemma sqrt_100: "sqrt 100 = 10" by (rule real_sqrt_unique) simp_all

lemmas route_example_defs = example_sys_same_ids_def example_sys_far_def

lemma same_ids_route:
  "route_of (suppliers example_sys_same_ids ! 0) (retailers example_sys_same_ids) = [1, 1]"
proof -
  let ?rs = "retailers example_sys_same_ids"
  let ?sup = "suppliers example_sys_same_ids ! 0"
  have len: "length ?rs = 2" by (simp add: route_example_defs example_defs)
  have d0: "supplierDistances ?sup ?rs 0 = 555" 
    by (simp add: route_example_defs example_defs supplierDistances_def calculateDistance_def sqrt_25)
  have d1: "supplierDistances ?sup ?rs (Suc 0) = 444" 
    by (simp add: route_example_defs example_defs supplierDistances_def calculateDistance_def sqrt_16)
  have big: "555 < DBL_MAX" "444 < DBL_MAX" using DBL_MAX_big by linarith+
  have c: "nearest 2 (\<lambda>j. True) (supplierDistances ?sup ?rs) = Suc 0"
    by (simp add: nearest_2 nearer_def d0 d1 big)
  have e10: "distances ?rs (Suc 0) 0 = 333"
    by (simp add: route_example_defs example_defs distances_def calculateDistance_def sqrt_9)
  have "333 < DBL_MAX" using DBL_MAX_big by linarith
  then have nx: "nearest 2 (\<lambda>j. \<not> [False, True] ! j) (distances ?rs (Suc 0)) = 0"
    by (simp add: nearest_2 nearer_def e10)
  have ids: "map r_id ?rs = [1, 1]" by (simp add: route_example_defs example_defs)
  show ?thesis
    unfolding route_of_def greedy_route_2 [OF len] ids
    by (simp add: Let_def c nx)
qed

lemma same_ids_total:
  "totalDistance_of (suppliers example_sys_same_ids ! 0) (retailers example_sys_same_ids) [1, 1] = 888"
proof -
  let ?rs = "retailers example_sys_same_ids"
  let ?sup = "suppliers example_sys_same_ids ! 0"
  have len: "length ?rs = 2" by (simp add: route_example_defs example_defs)
  have ix: "index_at (idToIndex_of ?rs) 1 = Suc 0"
    by (simp add: idToIndex_of_2 [OF len]) (simp add: route_example_defs example_defs)
  have d1: "supplierDistances ?sup ?rs (Suc 0) = 444" 
    by (simp add: route_example_defs example_defs supplierDistances_def calculateDistance_def sqrt_16)
  have ret: "calculateDistance (r_latitude (?rs ! Suc 0)) (r_longitude (?rs ! Suc 0))
             (s_latitude ?sup) (s_longitude ?sup) = 444"
    by (simp add: route_example_defs example_defs calculateDistance_def sqrt_16)
  show ?thesis
    by (simp add: totalDistance_of_2 [OF len] Let_def ix d1 ret distances_def)
qed

lemma same_ids_tours:
  "tour_length (suppliers example_sys_same_ids ! 0) (retailers example_sys_same_ids) [1, 0] = 1332"
  "tour_length (suppliers example_sys_same_ids ! 0) (retailers example_sys_same_ids) [0, 1] = 1332"
  by (simp_all add: tour_length_2 supplier_to_retailer_def retailerDistance_def
      retailer_to_supplier_def planar_km_def route_example_defs example_defs sqrt_25 sqrt_16 sqrt_9)

lemma far_route:
  "route_of (suppliers example_sys_far ! 0) (retailers example_sys_far) = [1, 1]"
proof -
  let ?rs = "retailers example_sys_far"
  let ?sup = "suppliers example_sys_far ! 0"
  have len: "length ?rs = 2" by (simp add: route_example_defs example_defs)
  have d0: "supplierDistances ?sup ?rs 0 = 555" 
    by (simp add: route_example_defs example_defs supplierDistances_def calculateDistance_def sqrt_25)
  have big: "555 < DBL_MAX" using DBL_MAX_big by linarith
  have "\<not> supplierDistances ?sup ?rs (Suc 0) < DBL_MAX"
    unfolding supplierDistances_def
    by (rule far_distance) (simp add: route_example_defs example_defs)
  with big have d1: "\<not> supplierDistances ?sup ?rs (Suc 0) < 555" by linarith
  have c: "nearest 2 (\<lambda>j. True) (supplierDistances ?sup ?rs) = 0"
    by (simp add: nearest_2 nearer_def d0 d1 big)
  have "\<not> calculateDistance (r_latitude (?rs ! 0)) (r_longitude (?rs ! 0))
            (r_latitude (?rs ! Suc 0)) (r_longitude (?rs ! Suc 0)) < DBL_MAX"
    by (rule far_distance) (simp add: route_example_defs example_defs)
  then have e01: "\<not> distances ?rs 0 (Suc 0) < DBL_MAX"
    by (simp add: distances_def)
  have nx: "nearest 2 (\<lambda>j. \<not> [True, False] ! j) (distances ?rs 0) = 0"
    by (simp add: nearest_2 nearer_def e01)
  have ids: "map r_id ?rs = [1, 2]" by (simp add: route_example_defs example_defs)
  show ?thesis
    unfolding route_of_def greedy_route_2 [OF len] ids
    by (simp add: Let_def c nx)
qed

lemma far_total:
  "totalDistance_of (suppliers example_sys_far ! 0) (retailers example_sys_far) [1, 1] = 1110"
proof -
  let ?rs = "retailers example_sys_far"
  let ?sup = "suppliers example_sys_far ! 0"
  have len: "length ?rs = 2" by (simp add: route_example_defs example_defs)
  have ix: "index_at (idToIndex_of ?rs) 1 = 0"
    by (simp add: idToIndex_of_2 [OF len]) (simp add: route_example_defs example_defs)
  have d0: "supplierDistances ?sup ?rs 0 = 555" 
    by (simp add: route_example_defs example_defs supplierDistances_def calculateDistance_def sqrt_25)
  have ret: "calculateDistance (r_latitude (?rs ! 0)) (r_longitude (?rs ! 0))
             (s_latitude ?sup) (s_longitude ?sup) = 555"
    by (simp add: route_example_defs example_defs calculateDistance_def sqrt_25)
  show ?thesis
    by (simp add: totalDistance_of_2 [OF len] Let_def ix d0 ret distances_def)
qed

lemma route_examples_found:
  "length (retailers example_sys_same_ids) = 2"
  "findSupplier example_sys_same_ids 1 = Some 0"
  "findTransporter example_sys_same_ids 1 = Some 0"
  "chain (blockchain example_sys_same_ids) \<noteq> []"
  "length (retailers example_sys_far) = 2"
  "findSupplier example_sys_far 1 = Some 0"
  "findTransporter example_sys_far 1 = Some 0"
  "chain (blockchain example_sys_far) \<noteq> []"
  by (simp_all add: route_example_defs example_defs findSupplier_def findTransporter_def)


section \<open>The claims\<close>

text \<open>
  C1. On a non-empty ledger, a call of \<open>createTransaction\<close> that passes the existence,
  supplier-carries-product and stock checks returns the current value of
  \<open>nextTransactionId\<close>, stores one Transaction with that id and status Completed or Failed,
  and advances the counter by 1 (in the 32-bit arithmetic of \<open>int\<close>); a call that fails
  one of the checks returns \<open>-1\<close> and leaves the whole state, the counter included, as it
  was. Hence over any sequence of calls the ids returned by the constructing calls are the
  initial counter, the counter plus 1, plus 2 and so on, in order; read as signed numbers
  they increase by 1 each time as long as the counter stays within the range of \<open>int\<close>.
\<close>

theorem C1_transaction_id_monotone:
  assumes "chain (blockchain s) \<noteq> []"
  shows
    "(passes_checks s a b c d q \<longrightarrow>
        (\<exists>s1 e1 t. createTransaction L a b c d q ot s e = (nextTransactionId s, s1, e1)
           \<and> nextTransactionId s1 = nextTransactionId s + 1
           \<and> chain (blockchain s1) \<noteq> []
           \<and> transactions s1 = transactions s @ [t] \<and> t_id t = nextTransactionId s
           \<and> (t_status t = ''Completed'' \<or> t_status t = ''Failed'')))
     \<and> (\<not> passes_checks s a b c d q \<longrightarrow> createTransaction L a b c d q ot s e = (- 1, s, e))
     \<and> (case run_calls L cs s e of (outs, s1, e1) \<Rightarrow>
           map snd (filter fst outs) =
             map (\<lambda>k. nextTransactionId s + of_nat k) [0..<length (filter fst outs)]
         \<and> (\<forall>out\<in>set outs. \<not> fst out \<longrightarrow> snd out = - 1)
         \<and> nextTransactionId s1 = nextTransactionId s + of_nat (length (filter fst outs))
         \<and> length (transactions s1) = length (transactions s) + length (filter fst outs)
         \<and> (sint (nextTransactionId s) + int (length (filter fst outs)) \<le> 2 ^ 31 \<longrightarrow>
              map (sint \<circ> snd) (filter fst outs) =
                map (\<lambda>k. sint (nextTransactionId s) + int k) [0..<length (filter fst outs)]))"
proof (intro conjI impI)
  assume "passes_checks s a b c d q"
  from createTransaction_step [OF assms this]
  show "\<exists>s1 e1 t. createTransaction L a b c d q ot s e = (nextTransactionId s, s1, e1)
           \<and> nextTransactionId s1 = nextTransactionId s + 1
           \<and> chain (blockchain s1) \<noteq> []
           \<and> transactions s1 = transactions s @ [t] \<and> t_id t = nextTransactionId s
           \<and> (t_status t = ''Completed'' \<or> t_status t = ''Failed'')" .
next
  assume "\<not> passes_checks s a b c d q"
  then show "createTransaction L a b c d q ot s e = (- 1, s, e)" by (rule not_passes_checks)
next
  obtain outs s1 e1 where rc: "run_calls L cs s e = (outs, s1, e1)"
    by (cases "run_calls L cs s e")
  let ?n = "length (filter fst outs)"
  from run_calls_ids [OF assms, of L cs e] rc
  have ids: "map snd (filter fst outs) = map (\<lambda>k. nextTransactionId s + of_nat k) [0..<?n]"
    and rest: "\<forall>out\<in>set outs. \<not> fst out \<longrightarrow> snd out = - 1"
      "nextTransactionId s1 = nextTransactionId s + of_nat ?n"
      "length (transactions s1) = length (transactions s) + ?n" by auto
  have signed: "map (sint \<circ> snd) (filter fst outs) =
                map (\<lambda>k. sint (nextTransactionId s) + int k) [0..<?n]"
    if b: "sint (nextTransactionId s) + int ?n \<le> 2 ^ 31"
  proof -
    have "map (sint \<circ> snd) (filter fst outs) = map sint (map snd (filter fst outs))" by simp
    also have "\<dots> = map (\<lambda>k. sint (nextTransactionId s + of_nat k)) [0..<?n]"
      by (simp only: ids map_map comp_def)
    also have "\<dots> = map (\<lambda>k. sint (nextTransactionId s) + int k) [0..<?n]"
    proof (rule map_cong [OF refl])
      fix k assume "k \<in> set [0..<?n]"
      then have "sint (nextTransactionId s) + int k < 2 ^ 31" using b by simp
      then show "sint (nextTransactionId s + of_nat k) = sint (nextTransactionId s) + int k"
        by (rule sint_add_of_nat)
    qed
    finally show ?thesis .
  qed
  show "case run_calls L cs s e of (outs, s1, e1) \<Rightarrow>
           map snd (filter fst outs) =
             map (\<lambda>k. nextTransactionId s + of_nat k) [0..<length (filter fst outs)]
         \<and> (\<forall>out\<in>set outs. \<not> fst out \<longrightarrow> snd out = - 1)
         \<and> nextTransactionId s1 = nextTransactionId s + of_nat (length (filter fst outs))
         \<and> length (transactions s1) = length (transactions s) + length (filter fst outs)
         \<and> (sint (nextTransactionId s) + int (length (filter fst outs)) \<le> 2 ^ 31 \<longrightarrow>
              map (sint \<circ> snd) (filter fst outs) =
                map (\<lambda>k. sint (nextTransactionId s) + int k) [0..<length (filter fst outs)])"
    using rc ids rest signed by simp
qed

theorem C1_transaction_id_monotone_witness:
  "chain (blockchain example_sys) \<noteq> []
   \<and> passes_checks example_sys 1 1 1 1 100
   \<and> fst (createTransaction example_lib 1 1 1 1 100 ''Regular'' example_sys example_env) = 1
   \<and> \<not> passes_checks example_sys 9 1 1 1 100
   \<and> createTransaction example_lib 9 1 1 1 100 ''Regular'' example_sys example_env
       = (- 1, example_sys, example_env)
   \<and> map snd (filter fst (fst (run_calls example_lib
         [example_call 1 100, example_call 9 100, example_call 1 800] example_sys example_env)))
       = [1, 2]
   \<and> sint (nextTransactionId example_sys) + 2 \<le> 2 ^ 31
   \<and> map (sint \<circ> snd) (filter fst (fst (run_calls example_lib
         [example_call 1 100, example_call 9 100, example_call 1 800] example_sys example_env)))
       = [1, 2]"
proof -
  have ne: "chain (blockchain example_sys) \<noteq> []" by (simp add: example_defs)
  have p1: "passes_checks example_sys 1 1 1 1 100" by (simp add: example_defs pipeline_defs)
  have p2: "\<not> passes_checks example_sys 9 1 1 1 100" by (simp add: example_defs pipeline_defs)
  have n: "nextTransactionId example_sys = 1" by (simp add: example_defs)
  have flags: "map fst (fst (run_calls example_lib
         [example_call 1 100, example_call 9 100, example_call 1 800] example_sys example_env))
       = [True, False, True]"
    by (simp add: example_defs pipeline_defs example_distance Let_def)
  have len: "length (filter fst (fst (run_calls example_lib
         [example_call 1 100, example_call 9 100, example_call 1 800] example_sys example_env))) = 2"
    using flags by (simp add: example_defs pipeline_defs example_distance Let_def)
  have upt2: "[0..<2] = [0, Suc 0]" by (simp add: numeral_2_eq_2)
  from C1_transaction_id_monotone [OF ne, of 1 1 1 1 100 example_lib "''Regular''" example_env
      "[example_call 1 100, example_call 9 100, example_call 1 800]"] p1
  have a: "fst (createTransaction example_lib 1 1 1 1 100 ''Regular'' example_sys example_env) = 1"
    and c: "map snd (filter fst (fst (run_calls example_lib
         [example_call 1 100, example_call 9 100, example_call 1 800] example_sys example_env)))
       = [1, 2]"
    and d: "map (sint \<circ> snd) (filter fst (fst (run_calls example_lib
         [example_call 1 100, example_call 9 100, example_call 1 800] example_sys example_env)))
       = [1, 2]"
    using n len upt2 by (auto simp: split_beta)
  from C1_transaction_id_monotone [OF ne, of 9 1 1 1 100 example_lib "''Regular''" example_env "[]"] p2
  have b: "createTransaction example_lib 9 1 1 1 100 ''Regular'' example_sys example_env
       = (- 1, example_sys, example_env)" by simp
  show ?thesis using ne p1 p2 a b c d n by simp
qed

text \<open>
  C2. A call of \<open>createTransaction\<close> in which the supplier, retailer, product or
  transporter id is not found, or the supplier's product list does not contain the product,
  or the product's stock is less than the quantity, returns \<open>-1\<close> and leaves the state as
  it was: no Transaction is stored, no block is appended, no credit or stock changes. A
  call that passes these checks on a non-empty ledger and is then rejected by a contract
  or by the retailer's credit appends the Transaction with status Failed to the store and
  one block to the ledger, with the payload prefix of the rejection, and changes neither
  the products nor the retailers.
\<close>

theorem C2_rejected_calls_leave_no_trace:
  "((a \<notin> s_id ` set (suppliers s) \<or> b \<notin> r_id ` set (retailers s) \<or>
     c \<notin> p_id ` set (products s) \<or> d \<notin> tr_id ` set (transporters s) \<or>
     (\<exists>sidx. findSupplier s a = Some sidx \<and> c \<notin> set (s_productIds (suppliers s ! sidx))) \<or>
     (\<exists>pidx. findProduct s c = Some pidx \<and> sint (p_stock (products s ! pidx)) < sint q))
    \<longrightarrow> createTransaction L a b c d q ot s e = (- 1, s, e))
   \<and> (findSupplier s a = Some sidx \<and> findRetailer s b = Some ridx \<and>
      findProduct s c = Some pidx \<and> findTransporter s d = Some tidx \<and>
      c \<in> set (s_productIds (suppliers s ! sidx)) \<and>
      sint q \<le> sint (p_stock (products s ! pidx)) \<and>
      chain (blockchain s) \<noteq> [] \<and>
      t = fst (costed_transaction s (suppliers s ! sidx) (retailers s ! ridx)
                 (products s ! pidx) (transporters s ! tidx) a b c d q ot e) \<and>
      (\<not> contracts_validate (contracts s) t \<or>
       r_creditBalance (retailers s ! ridx) < t_totalCost t)
    \<longrightarrow> (\<exists>s1 e1 blk.
           createTransaction L a b c d q ot s e = (nextTransactionId s, s1, e1) \<and>
           transactions s1 = transactions s @ [t\<lparr>t_status := ''Failed''\<rparr>] \<and>
           chain (blockchain s1) = chain (blockchain s) @ [blk] \<and>
           b_data blk =
             (if \<not> contracts_validate (contracts s) t then ''Failed Transaction | ''
              else ''Failed Transaction (Credit) | '') @ getBlockData L (t\<lparr>t_status := ''Failed''\<rparr>) \<and>
           products s1 = products s \<and> retailers s1 = retailers s))"
proof (intro conjI impI)
  assume "a \<notin> s_id ` set (suppliers s) \<or> b \<notin> r_id ` set (retailers s) \<or>
     c \<notin> p_id ` set (products s) \<or> d \<notin> tr_id ` set (transporters s) \<or>
     (\<exists>sidx. findSupplier s a = Some sidx \<and> c \<notin> set (s_productIds (suppliers s ! sidx))) \<or>
     (\<exists>pidx. findProduct s c = Some pidx \<and> sint (p_stock (products s ! pidx)) < sint q)"
  then have "\<not> passes_checks s a b c d q"
    unfolding passes_checks_iff
    by (auto simp: findSupplier_def findRetailer_def findProduct_def findTransporter_def
          find_first_None_image [symmetric] supplierHasProduct_iff hasEnoughStock_def)
  then show "createTransaction L a b c d q ot s e = (- 1, s, e)" by (rule not_passes_checks)
next
  assume h: "findSupplier s a = Some sidx \<and> findRetailer s b = Some ridx \<and>
      findProduct s c = Some pidx \<and> findTransporter s d = Some tidx \<and>
      c \<in> set (s_productIds (suppliers s ! sidx)) \<and>
      sint q \<le> sint (p_stock (products s ! pidx)) \<and>
      chain (blockchain s) \<noteq> [] \<and>
      t = fst (costed_transaction s (suppliers s ! sidx) (retailers s ! ridx)
                 (products s ! pidx) (transporters s ! tidx) a b c d q ot e) \<and>
      (\<not> contracts_validate (contracts s) t \<or>
       r_creditBalance (retailers s ! ridx) < t_totalCost t)"
  then have f: "findSupplier s a = Some sidx" "findRetailer s b = Some ridx"
      "findProduct s c = Some pidx" "findTransporter s d = Some tidx"
    and hp: "supplierHasProduct (s_productIds (suppliers s ! sidx)) c"
    and hs: "hasEnoughStock (products s ! pidx) q"
    and ne: "chain (blockchain s) \<noteq> []"
    and t: "t = fst (costed_transaction s (suppliers s ! sidx) (retailers s ! ridx)
                 (products s ! pidx) (transporters s ! tidx) a b c d q ot e)"
    and rej: "\<not> contracts_validate (contracts s) t \<or>
       r_creditBalance (retailers s ! ridx) < t_totalCost t"
    by (auto simp: supplierHasProduct_iff hasEnoughStock_def)
  from rej have nok: "\<not> (contracts_validate (contracts s) t \<and>
       t_totalCost t \<le> r_creditBalance (retailers s ! ridx))" by auto
  from createTransaction_constructed [OF f hp hs ne t, of L] obtain blk e1 where
    r: "createTransaction L a b c d q ot s e =
         (nextTransactionId s,
          s\<lparr>transactions := transactions s @ [t\<lparr>t_status := ''Failed''\<rparr>],
            blockchain := (blockchain s)\<lparr>chain := chain (blockchain s) @ [blk]\<rparr>,
            nextTransactionId := nextTransactionId s + 1\<rparr>, e1)"
    and bd: "b_data blk =
         (if \<not> contracts_validate (contracts s) t
          then ''Failed Transaction | '' @ getBlockData L (t\<lparr>t_status := ''Failed''\<rparr>)
          else if r_creditBalance (retailers s ! ridx) < t_totalCost t
          then ''Failed Transaction (Credit) | '' @ getBlockData L (t\<lparr>t_status := ''Failed''\<rparr>)
          else ''Completed Transaction | '' @ getBlockData L (t\<lparr>t_status := ''Completed''\<rparr>))"
    using nok by (auto simp only: if_False)
  show "\<exists>s1 e1 blk.
           createTransaction L a b c d q ot s e = (nextTransactionId s, s1, e1) \<and>
           transactions s1 = transactions s @ [t\<lparr>t_status := ''Failed''\<rparr>] \<and>
           chain (blockchain s1) = chain (blockchain s) @ [blk] \<and>
           b_data blk =
             (if \<not> contracts_validate (contracts s) t then ''Failed Transaction | ''
              else ''Failed Transaction (Credit) | '') @ getBlockData L (t\<lparr>t_status := ''Failed''\<rparr>) \<and>
           products s1 = products s \<and> retailers s1 = retailers s"
    using r bd rej by (intro exI [of _ "s\<lparr>transactions := transactions s @ [t\<lparr>t_status := ''Failed''\<rparr>],
            blockchain := (blockchain s)\<lparr>chain := chain (blockchain s) @ [blk]\<rparr>,
            nextTransactionId := nextTransactionId s + 1\<rparr>"] exI [of _ e1] exI [of _ blk]) auto
qed

theorem C2_rejected_calls_leave_no_trace_witness:
  "9 \<notin> s_id ` set (suppliers example_sys)
   \<and> createTransaction example_lib 9 1 1 1 100 ''Regular'' example_sys example_env
       = (- 1, example_sys, example_env)
   \<and> findSupplier example_sys 1 = Some 0 \<and> findRetailer example_sys 1 = Some 0
   \<and> findProduct example_sys 1 = Some 0 \<and> findTransporter example_sys 1 = Some 0
   \<and> 1 \<in> set (s_productIds (suppliers example_sys ! 0))
   \<and> sint (800 :: cint) \<le> sint (p_stock (products example_sys ! 0))
   \<and> chain (blockchain example_sys) \<noteq> []
   \<and> \<not> contracts_validate (contracts example_sys)
         (fst (costed_transaction example_sys (suppliers example_sys ! 0) (retailers example_sys ! 0)
                 (products example_sys ! 0) (transporters example_sys ! 0) 1 1 1 1 800 ''Regular''
                 example_env))
   \<and> (\<exists>s1 e1 blk.
         createTransaction example_lib 1 1 1 1 800 ''Regular'' example_sys example_env = (1, s1, e1) \<and>
         map t_status (transactions s1) = [''Failed''] \<and>
         chain (blockchain s1) = [example_genesis, blk] \<and>
         take 21 (b_data blk) = ''Failed Transaction | '' \<and>
         products s1 = products example_sys \<and> retailers s1 = retailers example_sys)"
proof -
  let ?t = "fst (costed_transaction example_sys (suppliers example_sys ! 0) (retailers example_sys ! 0)
                 (products example_sys ! 0) (transporters example_sys ! 0) 1 1 1 1 800 ''Regular''
                 example_env)"
  have h1: "9 \<notin> s_id ` set (suppliers example_sys)" by (simp add: example_defs)
  have f: "findSupplier example_sys 1 = Some 0" "findRetailer example_sys 1 = Some 0"
    "findProduct example_sys 1 = Some 0" "findTransporter example_sys 1 = Some 0"
    by (simp_all add: example_defs pipeline_defs)
  have g: "1 \<in> set (s_productIds (suppliers example_sys ! 0))"
    "sint (800 :: cint) \<le> sint (p_stock (products example_sys ! 0))"
    "chain (blockchain example_sys) \<noteq> []"
    by (simp_all add: example_defs)
  have rej: "\<not> contracts_validate (contracts example_sys) ?t"
    by (simp add: example_defs pipeline_defs example_distance Let_def)
  have n: "nextTransactionId example_sys = 1" "transactions example_sys = []"
    "chain (blockchain example_sys) = [example_genesis]"
    by (simp_all add: example_defs)
  have r1: "createTransaction example_lib 9 1 1 1 100 ''Regular'' example_sys example_env
       = (- 1, example_sys, example_env)"
    using C2_rejected_calls_leave_no_trace [where a = 9 and s = example_sys] h1 by blast
  have "\<exists>s1 e1 blk.
           createTransaction example_lib 1 1 1 1 800 ''Regular'' example_sys example_env
             = (nextTransactionId example_sys, s1, e1) \<and>
           transactions s1 = transactions example_sys @ [?t\<lparr>t_status := ''Failed''\<rparr>] \<and>
           chain (blockchain s1) = chain (blockchain example_sys) @ [blk] \<and>
           b_data blk =
             (if \<not> contracts_validate (contracts example_sys) ?t then ''Failed Transaction | ''
              else ''Failed Transaction (Credit) | '') @ getBlockData example_lib (?t\<lparr>t_status := ''Failed''\<rparr>) \<and>
           products s1 = products example_sys \<and> retailers s1 = retailers example_sys"
    by (rule C2_rejected_calls_leave_no_trace [where sidx = 0 and ridx = 0 and pidx = 0
          and tidx = 0, THEN conjunct2, THEN mp])
       (intro conjI f g disjI1 rej refl)
  then obtain s1 e1 blk where ex:
    "createTransaction example_lib 1 1 1 1 800 ''Regular'' example_sys example_env
             = (nextTransactionId example_sys, s1, e1)"
    "transactions s1 = transactions example_sys @ [?t\<lparr>t_status := ''Failed''\<rparr>]"
    "chain (blockchain s1) = chain (blockchain example_sys) @ [blk]"
    "b_data blk =
             (if \<not> contracts_validate (contracts example_sys) ?t then ''Failed Transaction | ''
              else ''Failed Transaction (Credit) | '') @ getBlockData example_lib (?t\<lparr>t_status := ''Failed''\<rparr>)"
    "products s1 = products example_sys" "retailers s1 = retailers example_sys" by blast
  have r2: "\<exists>s1 e1 blk.
         createTransaction example_lib 1 1 1 1 800 ''Regular'' example_sys example_env = (1, s1, e1) \<and>
         map t_status (transactions s1) = [''Failed''] \<and>
         chain (blockchain s1) = [example_genesis, blk] \<and>
         take 21 (b_data blk) = ''Failed Transaction | '' \<and>
         products s1 = products example_sys \<and> retailers s1 = retailers example_sys"
    apply (rule exI [of _ s1])
    apply (rule exI [of _ e1])
    apply (rule exI [of _ blk])
    using ex n rej apply simp
    done
  show ?thesis using h1 r1 f g rej r2 by blast
qed


text \<open>
  C3. \<open>deductCredit\<close> returns true exactly when the current balance is at least the
  amount; then both the current and the annual balance are lowered by the amount and
  nothing else changes; when it returns false the retailer is unchanged. So after any call
  of \<open>createTransaction\<close> either the retailers are as before (no Transaction stored, or a
  Failed one), or a Completed Transaction was stored and the retailer found for the id has
  both balances lowered by the Transaction's total cost, every other retailer unchanged.
\<close>

theorem C3_credit_atomicity:
  "(fst (deductCredit r A) \<longleftrightarrow> r_creditBalance r \<ge> A)
   \<and> (fst (deductCredit r A) \<longrightarrow>
        snd (deductCredit r A) =
          r\<lparr>r_creditBalance := r_creditBalance r - A,
            r_annualCreditBalance := r_annualCreditBalance r - A\<rparr>)
   \<and> (\<not> fst (deductCredit r A) \<longrightarrow> snd (deductCredit r A) = r)
   \<and> (case createTransaction L a b c d q ot s e of (ret, s1, e1) \<Rightarrow>
        (transactions s1 = transactions s \<and> retailers s1 = retailers s)
        \<or> (\<exists>t. transactions s1 = transactions s @ [t] \<and> t_status t = ''Failed'' \<and>
                retailers s1 = retailers s)
        \<or> (\<exists>t ridx. transactions s1 = transactions s @ [t] \<and> t_status t = ''Completed'' \<and>
                findRetailer s b = Some ridx \<and> ridx < length (retailers s) \<and>
                retailers s1 = (retailers s)[ridx := (retailers s ! ridx)
                   \<lparr>r_creditBalance := r_creditBalance (retailers s ! ridx) - t_totalCost t,
                    r_annualCreditBalance := r_annualCreditBalance (retailers s ! ridx) - t_totalCost t\<rparr>]))"
proof (intro conjI)
  show "fst (deductCredit r A) \<longleftrightarrow> r_creditBalance r \<ge> A" by (simp add: deductCredit_def)
  show "fst (deductCredit r A) \<longrightarrow>
        snd (deductCredit r A) =
          r\<lparr>r_creditBalance := r_creditBalance r - A,
            r_annualCreditBalance := r_annualCreditBalance r - A\<rparr>"
    by (simp add: deductCredit_def)
  show "\<not> fst (deductCredit r A) \<longrightarrow> snd (deductCredit r A) = r" by (simp add: deductCredit_def)
  show "case createTransaction L a b c d q ot s e of (ret, s1, e1) \<Rightarrow>
        (transactions s1 = transactions s \<and> retailers s1 = retailers s)
        \<or> (\<exists>t. transactions s1 = transactions s @ [t] \<and> t_status t = ''Failed'' \<and>
                retailers s1 = retailers s)
        \<or> (\<exists>t ridx. transactions s1 = transactions s @ [t] \<and> t_status t = ''Completed'' \<and>
                findRetailer s b = Some ridx \<and> ridx < length (retailers s) \<and>
                retailers s1 = (retailers s)[ridx := (retailers s ! ridx)
                   \<lparr>r_creditBalance := r_creditBalance (retailers s ! ridx) - t_totalCost t,
                    r_annualCreditBalance := r_annualCreditBalance (retailers s ! ridx) - t_totalCost t\<rparr>])"
  proof (cases "passes_checks s a b c d q")
    case False
    then show ?thesis by (simp add: not_passes_checks)
  next
    case True
    then obtain sidx ridx pidx tidx where f:
      "findSupplier s a = Some sidx" "findRetailer s b = Some ridx"
      "findProduct s c = Some pidx" "findTransporter s d = Some tidx"
      "supplierHasProduct (s_productIds (suppliers s ! sidx)) c"
      "hasEnoughStock (products s ! pidx) q"
      unfolding passes_checks_iff by blast
    define t where "t = fst (costed_transaction s (suppliers s ! sidx) (retailers s ! ridx)
                  (products s ! pidx) (transporters s ! tidx) a b c d q ot e)"
    have rl: "ridx < length (retailers s)"
      using find_first_Some [of "\<lambda>r. r_id r = b" "retailers s" ridx] f(2)
      by (simp add: findRetailer_def)
    from createTransaction_frame [OF f t_def, of L] obtain ret bc n e1 where
      r: "createTransaction L a b c d q ot s e =
       (ret,
        (if contracts_validate (contracts s) t \<and> r_creditBalance (retailers s ! ridx) \<ge> t_totalCost t
         then s\<lparr>retailers := (retailers s)[ridx := snd (deductCredit (retailers s ! ridx) (t_totalCost t))],
                products := (products s)[pidx := updateStock (products s ! pidx) (- q)],
                transactions := transactions s @ [t\<lparr>t_status := ''Completed''\<rparr>],
                blockchain := bc, nextTransactionId := n\<rparr>
         else s\<lparr>transactions := transactions s @ [t\<lparr>t_status := ''Failed''\<rparr>],
                blockchain := bc, nextTransactionId := n\<rparr>), e1)" by blast
    show ?thesis
    proof (cases "contracts_validate (contracts s) t \<and> r_creditBalance (retailers s ! ridx) \<ge> t_totalCost t")
      case False
      with r show ?thesis by simp
    next
      case True
      with r f(2) rl show ?thesis by (simp add: deductCredit_def)
    qed
  qed
qed


theorem C3_credit_atomicity_witness:
  "fst (deductCredit (retailers example_sys ! 0) 100)
   \<and> r_creditBalance (snd (deductCredit (retailers example_sys ! 0) 100)) = 9900
   \<and> r_annualCreditBalance (snd (deductCredit (retailers example_sys ! 0) 100)) = 99900
   \<and> \<not> fst (deductCredit (retailers example_sys ! 0) 20000)
   \<and> snd (deductCredit (retailers example_sys ! 0) 20000) = retailers example_sys ! 0"
proof -
  let ?r = "retailers example_sys ! 0"
  have b: "r_creditBalance ?r = 10000" "r_annualCreditBalance ?r = 100000"
    by (simp_all add: example_defs)
  have ok: "fst (deductCredit ?r 100)"
    using C3_credit_atomicity [of ?r 100] b by simp
  have no: "\<not> fst (deductCredit ?r 20000)"
    using C3_credit_atomicity [of ?r 20000] b by simp
  from C3_credit_atomicity [of ?r 100] ok
  have "snd (deductCredit ?r 100) =
          ?r\<lparr>r_creditBalance := r_creditBalance ?r - 100,
             r_annualCreditBalance := r_annualCreditBalance ?r - 100\<rparr>" by blast
  then have v: "r_creditBalance (snd (deductCredit ?r 100)) = 9900"
    "r_annualCreditBalance (snd (deductCredit ?r 100)) = 99900" using b by simp_all
  from C3_credit_atomicity [of ?r 20000] no
  have u: "snd (deductCredit ?r 20000) = ?r" by blast
  show ?thesis using ok no v u by simp
qed





text \<open>
  C5. \<open>isChainValid\<close> returns true if and only if every block after the first carries as
  predecessor hash the current hash of the block before it (so always for a chain of at
  most one block). A ledger built by the constructor and any number of \<open>addBlock\<close> calls
  never throws, has one block more per call, is valid, and each appended block has the
  number of its predecessor plus 1, the predecessor's hash as its previous hash, and the
  payload given.
\<close>

theorem C5_chain_linkage:
  "(isChainValid bc \<longleftrightarrow>
      (\<forall>i. 0 < i \<and> i < length (chain bc) \<longrightarrow>
           b_previousHash (chain bc ! i) = b_currentHash (chain bc ! (i - 1))))
   \<and> (case new_Blockchain e of (bc0, e0) \<Rightarrow>
        case addBlocks ds bc0 e0 of (r, bc1, e1) \<Rightarrow>
          r = Inr () \<and> length (chain bc1) = 1 + length ds \<and> isChainValid bc1 \<and>
          (\<forall>i. 0 < i \<and> i < length (chain bc1) \<longrightarrow>
               b_blockNumber (chain bc1 ! i) = b_blockNumber (chain bc1 ! (i - 1)) + 1 \<and>
               b_previousHash (chain bc1 ! i) = b_currentHash (chain bc1 ! (i - 1)) \<and>
               b_data (chain bc1 ! i) = ds ! (i - 1)))"
proof (rule conjI)
  show "isChainValid bc \<longleftrightarrow>
      (\<forall>i. 0 < i \<and> i < length (chain bc) \<longrightarrow>
           b_previousHash (chain bc ! i) = b_currentHash (chain bc ! (i - 1)))"
    by (rule isChainValid_iff)
next
  obtain bc0 e0 where n: "new_Blockchain e = (bc0, e0)" by (cases "new_Blockchain e")
  from new_Blockchain_chain [of e] n obtain g where g: "chain bc0 = [g]" by auto
  have "follows g [] []" by simp
  from addBlocks_follows [OF this g, of ds e0] obtain bs' e1 where
    r: "addBlocks ds bc0 e0 = (Inr (), bc0\<lparr>chain := g # bs'\<rparr>, e1)" and f: "follows g bs' ds" by auto
  have len: "length bs' = length ds" by (rule follows_length [OF f])
  have nth: "\<And>i. 0 < i \<Longrightarrow> i < length (g # bs') \<Longrightarrow>
               b_blockNumber ((g # bs') ! i) = b_blockNumber ((g # bs') ! (i - 1)) + 1 \<and>
               b_previousHash ((g # bs') ! i) = b_currentHash ((g # bs') ! (i - 1)) \<and>
               b_data ((g # bs') ! i) = ds ! (i - 1)"
  proof -
    fix i assume "0 < i" "i < length (g # bs')"
    then obtain j where j: "i = Suc j" "j < length bs'" by (cases i) auto
    from follows_nth [OF f j(2)] j show "b_blockNumber ((g # bs') ! i) = b_blockNumber ((g # bs') ! (i - 1)) + 1 \<and>
               b_previousHash ((g # bs') ! i) = b_currentHash ((g # bs') ! (i - 1)) \<and>
               b_data ((g # bs') ! i) = ds ! (i - 1)" by simp
  qed
  have v: "isChainValid (bc0\<lparr>chain := g # bs'\<rparr>)"
    unfolding isChainValid_iff using nth by simp
  show "case new_Blockchain e of (bc0, e0) \<Rightarrow>
        case addBlocks ds bc0 e0 of (r, bc1, e1) \<Rightarrow>
          r = Inr () \<and> length (chain bc1) = 1 + length ds \<and> isChainValid bc1 \<and>
          (\<forall>i. 0 < i \<and> i < length (chain bc1) \<longrightarrow>
               b_blockNumber (chain bc1 ! i) = b_blockNumber (chain bc1 ! (i - 1)) + 1 \<and>
               b_previousHash (chain bc1 ! i) = b_currentHash (chain bc1 ! (i - 1)) \<and>
               b_data (chain bc1 ! i) = ds ! (i - 1))"
    using n r len v nth by simp
qed

theorem C5_chain_linkage_witness:
  "(let bc1 = fst (snd (addBlocks [''a'', ''b''] (fst (new_Blockchain example_env))
                          (snd (new_Blockchain example_env))))
    in (0::nat) < 1 \<and> 1 < length (chain bc1) \<and> isChainValid bc1
       \<and> b_previousHash (chain bc1 ! 1) = b_currentHash (chain bc1 ! 0)
       \<and> b_blockNumber (chain bc1 ! 1) = b_blockNumber (chain bc1 ! 0) + 1
       \<and> b_data (chain bc1 ! 2) = ''b'')"
proof -
  let ?bc1 = "fst (snd (addBlocks [''a'', ''b''] (fst (new_Blockchain example_env))
                          (snd (new_Blockchain example_env))))"
  from C5_chain_linkage [where bc = ?bc1 and e = example_env and ds = "[''a'', ''b'']"]
  have len: "length (chain ?bc1) = 3" and v: "isChainValid ?bc1"
    and l: "\<forall>i. 0 < i \<and> i < length (chain ?bc1) \<longrightarrow>
               b_blockNumber (chain ?bc1 ! i) = b_blockNumber (chain ?bc1 ! (i - 1)) + 1 \<and>
               b_previousHash (chain ?bc1 ! i) = b_currentHash (chain ?bc1 ! (i - 1)) \<and>
               b_data (chain ?bc1 ! i) = [''a'', ''b''] ! (i - 1)"
    by (simp_all add: split_beta)
  from l [rule_format, of 1] l [rule_format, of 2] len v
  show ?thesis by (simp add: Let_def)
qed


text \<open>
  C6. The stock of a product does not stay at least 0 under every quantity: on the example
  system, whose only product has stock 1000, the call with quantity \<open>-2147483648\<close> passes the stock check
  (1000 is at least the quantity), is completed, and \<open>updateStock(-quantity)\<close> leaves the
  stock at \<open>-2147482648\<close>. The stock does stay at least 0 over the calls in which stock
  minus quantity is representable (\<open>stock_stays_nonnegative\<close>), among them every call with
  a quantity of at least 0.
\<close>

theorem C6_stock_goes_negative:
  "map (sint \<circ> p_stock) (products example_sys) = [1000]
   \<and> (case createTransaction example_lib 1 1 1 1 (- 2147483648) ''Regular'' example_sys example_env of
        (ret, s1, e1) \<Rightarrow>
          ret = 1 \<and> map t_status (transactions s1) = [''Completed''] \<and>
          map (sint \<circ> p_stock) (products s1) = [- 2147482648])"
  by (simp add: example_defs pipeline_defs example_distance Let_def)

text \<open>
  C7. The constructor leaves exactly one block, numbered 0, and so does a restore from an
  empty source (\<open>new_Blockchain_chain\<close>, \<open>loadFromFile_empty_source\<close>). But the ledger is
  not non-empty after every restore: \<open>loadFromFile\<close> clears the chain first, and on a
  source whose first line has fewer than five fields it returns \<open>false\<close> from the handler
  before the genesis block is recreated, so the chain is left empty, also in the state
  \<open>loadData\<close> leaves behind; the next \<open>addBlock\<close> then throws.
\<close>

theorem C7_failed_restore_leaves_ledger_empty:
  "loadFromFile L (Some [''corrupt'']) bc e = (False, bc\<lparr>chain := []\<rparr>, e)
   \<and> fst (snd (loadData L (fs\<lparr>blockchain_dat := Some [''corrupt'']\<rparr>) s cerr e)) =
       s\<lparr>products := [], suppliers := [], retailers := [], transporters := [], transactions := [],
         blockchain := (blockchain s)\<lparr>chain := []\<rparr>\<rparr>
   \<and> addBlock d (bc\<lparr>chain := []\<rparr>) e = (Inl (RuntimeError ''Blockchain is empty''), bc\<lparr>chain := []\<rparr>, e)"
  by (simp add: loadData_def loadFromFile_def Block_deserialize_def split_on_def addBlock_def
        getLatestBlock_def)

text \<open>
  C8. Skipping a malformed line and going on does not extend to Blocks: the restore of the
  ledger stops at the first line that does not deserialize. Here the second of three lines has fewer than
  five fields; \<open>loadFromFile\<close> returns \<open>false\<close> and the well-formed third line is not
  loaded.
\<close>

theorem C8_block_load_aborts:
  "length (split_on CHR ''|'' ''corrupt'') < 5
   \<and> fst (Block_deserialize example_lib ''1|h1|h0|20250101:12:01|Added Product'' example_env)
       = Inr \<lparr>b_blockNumber = 1, b_currentHash = ''h1'', b_previousHash = ''h0'',
              b_timestamp = ''20250101:12:01'', b_data = ''Added Product''\<rparr>
   \<and> fst (loadFromFile example_lib
            (Some [''0|h0|g0|20250101:12:00|Genesis Block'', ''corrupt'',
                   ''1|h1|h0|20250101:12:01|Added Product''])
            \<lparr>chain = [example_genesis]\<rparr> example_env) = False
   \<and> map b_blockNumber (chain (fst (snd (loadFromFile example_lib
            (Some [''0|h0|g0|20250101:12:00|Genesis Block'', ''corrupt'',
                   ''1|h1|h0|20250101:12:01|Added Product''])
            \<lparr>chain = [example_genesis]\<rparr> example_env)))) = [0]"
  by (simp add: loadFromFile_def Block_deserialize_def split_on_def example_lib_def
        example_stoi_def digit_val_def new_Block_def getCurrentTimestamp_def generateHash_def
        example_env_def Let_def)

text \<open>
  C8, as amended. For Product, Supplier, Retailer, Transporter and Transaction records the
  load keeps exactly the records of the lines that deserialize, in order, and writes one
  warning to \<open>std::cerr\<close> for every other line; so a line with fewer fields than required
  is skipped with its warning and the well-formed lines before and after it are loaded.
  \<open>loadData\<close> returns what the restore of the ledger returns, whatever the entity files
  hold. For Blocks the restore reports failure at the first line with fewer than five
  fields and does not read the lines after it.
\<close>

theorem C8_entity_loads_skip_malformed_lines:
  "load_products L lines cerr e =
     (kept (Product_deserialize L) lines,
      cerr @ warnings ''Error deserializing product: '' (Product_deserialize L) lines, e)
   \<and> load_suppliers L lines cerr e =
     (kept (Supplier_deserialize L) lines,
      cerr @ warnings ''Error deserializing supplier: '' (Supplier_deserialize L) lines, e)
   \<and> load_retailers L lines cerr e =
     (kept (Retailer_deserialize L) lines,
      cerr @ warnings ''Error deserializing retailer: '' (Retailer_deserialize L) lines, e)
   \<and> load_transporters L lines cerr e =
     (kept (Transporter_deserialize L) lines,
      cerr @ warnings ''Error deserializing transporter: '' (Transporter_deserialize L) lines, e)
   \<and> fst (load_transactions L lines cerr e) =
       kept (\<lambda>line. fst (Transaction_deserialize L line e)) lines
   \<and> fst (snd (load_transactions L lines cerr e)) =
       cerr @ warnings ''Error deserializing transaction: ''
                (\<lambda>line. fst (Transaction_deserialize L line e)) lines
   \<and> (length (split_on CHR ''|'' bad) < 4 \<longrightarrow>
        fst (load_products L (pre @ bad # post) cerr e) =
          fst (load_products L pre cerr e) @ fst (load_products L post cerr e) \<and>
        ''Error deserializing product: Invalid product data format''
          \<in> set (fst (snd (load_products L (pre @ bad # post) cerr e))))
   \<and> (length (split_on CHR ''|'' bad) < 6 \<longrightarrow>
        fst (load_suppliers L (pre @ bad # post) cerr e) =
          fst (load_suppliers L pre cerr e) @ fst (load_suppliers L post cerr e) \<and>
        ''Error deserializing supplier: Invalid supplier data format''
          \<in> set (fst (snd (load_suppliers L (pre @ bad # post) cerr e))))
   \<and> (length (split_on CHR ''|'' bad) < 7 \<longrightarrow>
        fst (load_retailers L (pre @ bad # post) cerr e) =
          fst (load_retailers L pre cerr e) @ fst (load_retailers L post cerr e) \<and>
        ''Error deserializing retailer: Invalid retailer data format''
          \<in> set (fst (snd (load_retailers L (pre @ bad # post) cerr e))))
   \<and> (length (split_on CHR ''|'' bad) < 5 \<longrightarrow>
        fst (load_transporters L (pre @ bad # post) cerr e) =
          fst (load_transporters L pre cerr e) @ fst (load_transporters L post cerr e) \<and>
        ''Error deserializing transporter: Invalid transporter data format''
          \<in> set (fst (snd (load_transporters L (pre @ bad # post) cerr e))))
   \<and> (length (split_on CHR ''|'' bad) < 12 \<longrightarrow>
        fst (load_transactions L (pre @ bad # post) cerr e) =
          fst (load_transactions L pre cerr e) @ fst (load_transactions L post cerr e) \<and>
        ''Error deserializing transaction: Invalid transaction data format''
          \<in> set (fst (snd (load_transactions L (pre @ bad # post) cerr e))))
   \<and> fst (loadData L fs s cerr e) = fst (loadFromFile L (blockchain_dat fs) (blockchain s) e)
   \<and> (length (split_on CHR ''|'' bad) < 5 \<longrightarrow>
        fst (loadFromFile L (Some (pre @ bad # post)) bc e) = False \<and>
        loadFromFile L (Some (pre @ bad # post)) bc e = loadFromFile L (Some (pre @ [bad])) bc e)"
proof -
  have tx: "fst (load_transactions L ls cerr e) =
              kept (\<lambda>line. fst (Transaction_deserialize L line e)) ls
          \<and> fst (snd (load_transactions L ls cerr e)) =
              cerr @ warnings ''Error deserializing transaction: ''
                (\<lambda>line. fst (Transaction_deserialize L line e)) ls" for ls
    using load_lines_indep [of "Transaction_deserialize L" _ ls "[]" cerr e e,
        OF Transaction_deserialize_indep]
    by (simp add: load_transactions_def)
  have p: "length (split_on CHR ''|'' bad) < 4 \<longrightarrow>
        fst (load_products L (pre @ bad # post) cerr e) =
          fst (load_products L pre cerr e) @ fst (load_products L post cerr e) \<and>
        ''Error deserializing product: Invalid product data format''
          \<in> set (fst (snd (load_products L (pre @ bad # post) cerr e)))"
    by (simp add: load_products_def load_lines_pure short_lines kept_append warnings_append)
  have su: "length (split_on CHR ''|'' bad) < 6 \<longrightarrow>
        fst (load_suppliers L (pre @ bad # post) cerr e) =
          fst (load_suppliers L pre cerr e) @ fst (load_suppliers L post cerr e) \<and>
        ''Error deserializing supplier: Invalid supplier data format''
          \<in> set (fst (snd (load_suppliers L (pre @ bad # post) cerr e)))"
    by (simp add: load_suppliers_def load_lines_pure short_lines kept_append warnings_append)
  have r: "length (split_on CHR ''|'' bad) < 7 \<longrightarrow>
        fst (load_retailers L (pre @ bad # post) cerr e) =
          fst (load_retailers L pre cerr e) @ fst (load_retailers L post cerr e) \<and>
        ''Error deserializing retailer: Invalid retailer data format''
          \<in> set (fst (snd (load_retailers L (pre @ bad # post) cerr e)))"
    by (simp add: load_retailers_def load_lines_pure short_lines kept_append warnings_append)
  have tr: "length (split_on CHR ''|'' bad) < 5 \<longrightarrow>
        fst (load_transporters L (pre @ bad # post) cerr e) =
          fst (load_transporters L pre cerr e) @ fst (load_transporters L post cerr e) \<and>
        ''Error deserializing transporter: Invalid transporter data format''
          \<in> set (fst (snd (load_transporters L (pre @ bad # post) cerr e)))"
    by (simp add: load_transporters_def load_lines_pure short_lines kept_append warnings_append)
  have t: "length (split_on CHR ''|'' bad) < 12 \<longrightarrow>
        fst (load_transactions L (pre @ bad # post) cerr e) =
          fst (load_transactions L pre cerr e) @ fst (load_transactions L post cerr e) \<and>
        ''Error deserializing transaction: Invalid transaction data format''
          \<in> set (fst (snd (load_transactions L (pre @ bad # post) cerr e)))"
    by (simp add: tx short_lines warnings_append kept_append)
  have b: "length (split_on CHR ''|'' bad) < 5 \<longrightarrow>
        fst (loadFromFile L (Some (pre @ bad # post)) bc e) = False \<and>
        loadFromFile L (Some (pre @ bad # post)) bc e = loadFromFile L (Some (pre @ [bad])) bc e"
    using loadFromFile_stop [of bad L pre post bc e] by blast
  have c1: "load_products L lines cerr e =
     (kept (Product_deserialize L) lines,
      cerr @ warnings ''Error deserializing product: '' (Product_deserialize L) lines, e)"
    by (simp add: load_products_def load_lines_pure)
  have c2: "load_suppliers L lines cerr e =
     (kept (Supplier_deserialize L) lines,
      cerr @ warnings ''Error deserializing supplier: '' (Supplier_deserialize L) lines, e)"
    by (simp add: load_suppliers_def load_lines_pure)
  have c3: "load_retailers L lines cerr e =
     (kept (Retailer_deserialize L) lines,
      cerr @ warnings ''Error deserializing retailer: '' (Retailer_deserialize L) lines, e)"
    by (simp add: load_retailers_def load_lines_pure)
  have c4: "load_transporters L lines cerr e =
     (kept (Transporter_deserialize L) lines,
      cerr @ warnings ''Error deserializing transporter: '' (Transporter_deserialize L) lines, e)"
    by (simp add: load_transporters_def load_lines_pure)
  note c5 = tx [of lines, THEN conjunct1] and c6 = tx [of lines, THEN conjunct2]
  show ?thesis
    apply (intro conjI)
                apply (rule c1)
               apply (rule c2)
              apply (rule c3)
             apply (rule c4)
            apply (rule c5)
           apply (rule c6)
          apply (rule p)
         apply (rule su)
        apply (rule r)
       apply (rule tr)
      apply (rule t)
     apply (rule loadData_result)
    apply (rule b)
    done
qed

theorem C8_entity_loads_skip_malformed_lines_witness:
  "length (split_on CHR ''|'' ''corrupt'') < 4
   \<and> map p_name (fst (load_products example_lib
        ([''1|Rice|5|1000''] @ ''corrupt'' # [''2|Vegetables|3|800'']) [] example_env))
       = [''Rice'', ''Vegetables'']
   \<and> ''Error deserializing product: Invalid product data format''
        \<in> set (fst (snd (load_products example_lib
             ([''1|Rice|5|1000''] @ ''corrupt'' # [''2|Vegetables|3|800'']) [] example_env)))
   \<and> length (split_on CHR ''|'' ''corrupt'') < 5
   \<and> fst (loadFromFile example_lib
            (Some ([''0|h0|g0|20250101:12:00|Genesis Block''] @ ''corrupt'' #
                   [''1|h1|h0|20250101:12:01|Added Product'']))
            \<lparr>chain = [example_genesis]\<rparr> example_env) = False"
proof -
  have h: "length (split_on CHR ''|'' ''corrupt'') < 4" "length (split_on CHR ''|'' ''corrupt'') < 5"
    by (simp_all add: split_on_def)
  note inst = C8_entity_loads_skip_malformed_lines [where L = example_lib and bad = "''corrupt''"
      and cerr = "[]" and e = example_env]
  have a: "fst (load_products example_lib
        ([''1|Rice|5|1000''] @ ''corrupt'' # [''2|Vegetables|3|800'']) [] example_env)
      = fst (load_products example_lib [''1|Rice|5|1000''] [] example_env) @
        fst (load_products example_lib [''2|Vegetables|3|800''] [] example_env)"
    and w: "''Error deserializing product: Invalid product data format''
        \<in> set (fst (snd (load_products example_lib
             ([''1|Rice|5|1000''] @ ''corrupt'' # [''2|Vegetables|3|800'']) [] example_env)))"
    using inst [where pre = "[''1|Rice|5|1000'']" and post = "[''2|Vegetables|3|800'']"] h(1)
    by blast+
  have k: "map p_name (fst (load_products example_lib [''1|Rice|5|1000''] [] example_env)) = [''Rice'']"
    "map p_name (fst (load_products example_lib [''2|Vegetables|3|800''] [] example_env)) = [''Vegetables'']"
    by (simp_all add: load_products_def Product_deserialize_def split_on_def bind_err_def
          example_lib_def example_stoi_def)
  have b: "fst (loadFromFile example_lib
            (Some ([''0|h0|g0|20250101:12:00|Genesis Block''] @ ''corrupt'' #
                   [''1|h1|h0|20250101:12:01|Added Product'']))
            \<lparr>chain = [example_genesis]\<rparr> example_env) = False"
    using inst [where pre = "[''0|h0|g0|20250101:12:00|Genesis Block'']"
        and post = "[''1|h1|h0|20250101:12:01|Added Product'']"
        and bc = "\<lparr>chain = [example_genesis]\<rparr>"] h(2)
    by blast
  show ?thesis using h a w k b by simp
qed

text \<open>
  C9. The claim does not hold of every retailer set the optimizer is given; the retailers
  are read from \<open>retailers.dat\<close> without any check of their ids or coordinates. With two
  retailers that carry the same id 1, at (3, 4) and (0, 4), and the supplier at (0, 0),
  \<open>idToIndex\<close> sends both ids of the route to the second retailer, and the reported total
  is 444 + 0 + 444 = 888, while the tour from the supplier through both retailers and back
  is (4 + 3 + 5) \<times> 111 = 1332 in either order. With retailer 1 at (3, 4) and retailer 2
  at latitude \<open>2 ^ 1020\<close>, every distance to retailer 2 is not below \<open>DBL_MAX\<close> (in
  double arithmetic it is infinite), so the search that starts at \<open>nextIndex = 0\<close> and
  \<open>minDist = DBL_MAX\<close> selects nothing: the route is 1, 1, retailer 1 twice and retailer 2
  never.
\<close>

theorem C9_unchecked_retailers_break_route:
  "map r_id (retailers example_sys_same_ids) = [1, 1]
   \<and> fst (optimizeDistributionRoute example_lib 1 1 example_sys_same_ids example_env)
       = Inr ([1, 1], 888)
   \<and> tour_length (suppliers example_sys_same_ids ! 0) (retailers example_sys_same_ids) [1, 0] = 1332
   \<and> tour_length (suppliers example_sys_same_ids ! 0) (retailers example_sys_same_ids) [0, 1] = 1332
   \<and> map r_id (retailers example_sys_far) = [1, 2]
   \<and> fst (optimizeDistributionRoute example_lib 1 1 example_sys_far example_env)
       = Inr ([1, 1], 1110)"
proof (intro conjI)
  show "map r_id (retailers example_sys_same_ids) = [1, 1]"
    by (simp add: route_example_defs example_defs)
  show "fst (optimizeDistributionRoute example_lib 1 1 example_sys_same_ids example_env)
       = Inr ([1, 1], 888)"
    using optimizeDistributionRoute_returns [of example_sys_same_ids 1 0 1 0 example_lib example_env]
    by (simp add: route_examples_found same_ids_route same_ids_total)
  show "tour_length (suppliers example_sys_same_ids ! 0) (retailers example_sys_same_ids) [1, 0] = 1332"
    by (rule same_ids_tours)
  show "tour_length (suppliers example_sys_same_ids ! 0) (retailers example_sys_same_ids) [0, 1] = 1332"
    by (rule same_ids_tours)
  show "map r_id (retailers example_sys_far) = [1, 2]"
    by (simp add: route_example_defs example_defs)
  show "fst (optimizeDistributionRoute example_lib 1 1 example_sys_far example_env)
       = Inr ([1, 1], 1110)"
    using optimizeDistributionRoute_returns [of example_sys_far 1 0 1 0 example_lib example_env]
    by (simp add: route_examples_found far_route far_total)
qed

text \<open>
  C9, as amended. With fewer than two retailers \<open>optimizeDistributionRoute\<close> throws its
  precondition error and changes nothing. For a supplier and at least two retailers whose
  coordinates lie in the valid ranges (latitude within 90, longitude within 180 degrees),
  the route is the list of ids of a sequence of stops in which every retailer of the list
  occurs exactly once; the first stop is the retailer nearest the supplier and every later
  stop is the nearest not yet visited retailer from the stop before it, the first in
  iteration order among equally near ones, nearness being the planar distance
  \<open>sqrt (dlat\<^sup>2 + dlon\<^sup>2) * 111\<close> of the coordinates. If moreover the ids of the retailers
  are pairwise distinct, no id occurs twice in the route and the reported total distance is
  the planar distance from the supplier to the first stop, plus the planar distances
  between consecutive stops, plus the planar distance from the last stop back to the
  supplier. Doubles are read as reals.
\<close>

theorem C9_route_optimizer:
  "(2 \<le> length rs \<and>
    (\<forall>r\<in>set rs. \<bar>r_latitude r\<bar> \<le> 90 \<and> \<bar>r_longitude r\<bar> \<le> 180) \<and>
    \<bar>s_latitude supplier\<bar> \<le> 90 \<and> \<bar>s_longitude supplier\<bar> \<le> 180
    \<longrightarrow>
    (\<exists>stops. route_of supplier rs = map (\<lambda>i. r_id (rs ! i)) stops
       \<and> distinct stops \<and> set stops = {0..<length rs}
       \<and> set (route_of supplier rs) = r_id ` set rs
       \<and> nearest_to_supplier supplier rs (stops ! 0)
       \<and> (\<forall>p. 0 < p \<and> p < length rs \<longrightarrow>
              nearest_unvisited rs (take p stops) (stops ! (p - 1)) (stops ! p))
       \<and> (distinct (map r_id rs) \<longrightarrow>
              distinct (route_of supplier rs) \<and>
              totalDistance_of supplier rs (route_of supplier rs) = tour_length supplier rs stops)))
   \<and> (length (retailers s) < 2 \<longrightarrow>
        optimizeDistributionRoute L supplierId transporterId s e =
          (Inl (RuntimeError ''Need at least 2 retailers to optimize routes''), s, e))
   \<and> (2 \<le> length (retailers s) \<and> findSupplier s supplierId = Some sidx \<and>
       findTransporter s transporterId = Some tidx \<and> chain (blockchain s) \<noteq> []
       \<longrightarrow> fst (optimizeDistributionRoute L supplierId transporterId s e) =
             Inr (route_of (suppliers s ! sidx) (retailers s),
                  totalDistance_of (suppliers s ! sidx) (retailers s)
                    (route_of (suppliers s ! sidx) (retailers s))))"
proof (intro conjI impI)
  assume h: "2 \<le> length rs \<and>
    (\<forall>r\<in>set rs. \<bar>r_latitude r\<bar> \<le> 90 \<and> \<bar>r_longitude r\<bar> \<le> 180) \<and>
    \<bar>s_latitude supplier\<bar> \<le> 90 \<and> \<bar>s_longitude supplier\<bar> \<le> 180"
  then have n: "2 \<le> length rs"
    and rc: "\<forall>r\<in>set rs. \<bar>r_latitude r\<bar> \<le> 90 \<and> \<bar>r_longitude r\<bar> \<le> 180"
    and sc: "\<bar>s_latitude supplier\<bar> \<le> 90 \<and> \<bar>s_longitude supplier\<bar> \<le> 180"
    by blast+
  define stops where "stops = greedy_route (\<lambda>i. i) supplier rs"
  from greedy_route_stops [OF n rc sc stops_def]
  have st: "distinct stops" "set stops = {0..<length rs}"
    "nearest_to_supplier supplier rs (stops ! 0)"
    "\<forall>p. 0 < p \<and> p < length rs \<longrightarrow>
        nearest_unvisited rs (take p stops) (stops ! (p - 1)) (stops ! p)"
    by blast+
  have sub: "set stops \<subseteq> {..<length rs}" using st(2) by auto
  have ne: "stops \<noteq> []" using st(2) n by auto
  have r: "route_of supplier rs = map (\<lambda>i. r_id (rs ! i)) stops"
  proof -
    have "route_of supplier rs = map (\<lambda>i. map r_id rs ! i) stops"
      unfolding route_of_def stops_def by (rule greedy_route_label)
    also have "\<dots> = map (\<lambda>i. r_id (rs ! i)) stops"
      using sub by (intro map_cong refl) (auto simp: subset_iff)
    finally show ?thesis .
  qed
  have set_r: "set (route_of supplier rs) = r_id ` set rs"
  proof -
    have "set (route_of supplier rs) = (\<lambda>i. r_id (rs ! i)) ` {0..<length rs}"
      using st(2) by (simp add: r)
    also have "\<dots> = r_id ` ((\<lambda>i. rs ! i) ` {0..<length rs})" by (simp add: image_image)
    also have "(\<lambda>i. rs ! i) ` {0..<length rs} = set rs"
      by (auto simp: set_conv_nth)
    finally show ?thesis .
  qed
  have dist_r: "distinct (route_of supplier rs)" if ids: "distinct (map r_id rs)"
    unfolding r distinct_map
  proof (intro conjI inj_onI)
    show "distinct stops" by (rule st(1))
  next
    fix a b assume ab: "a \<in> set stops" "b \<in> set stops" "r_id (rs ! a) = r_id (rs ! b)"
    then have "a < length rs" "b < length rs" using sub by auto
    moreover from ab(3) this have "map r_id rs ! a = map r_id rs ! b" by simp
    ultimately show "a = b" using nth_eq_iff_index_eq [OF ids, of a b] by simp
  qed
  have td: "totalDistance_of supplier rs (route_of supplier rs) = tour_length supplier rs stops"
    if ids: "distinct (map r_id rs)"
    unfolding r by (rule totalDistance_of_stops [OF ids st(1) sub ne])
  show "\<exists>stops. route_of supplier rs = map (\<lambda>i. r_id (rs ! i)) stops
       \<and> distinct stops \<and> set stops = {0..<length rs}
       \<and> set (route_of supplier rs) = r_id ` set rs
       \<and> nearest_to_supplier supplier rs (stops ! 0)
       \<and> (\<forall>p. 0 < p \<and> p < length rs \<longrightarrow>
              nearest_unvisited rs (take p stops) (stops ! (p - 1)) (stops ! p))
       \<and> (distinct (map r_id rs) \<longrightarrow>
              distinct (route_of supplier rs) \<and>
              totalDistance_of supplier rs (route_of supplier rs) = tour_length supplier rs stops)"
    using r st dist_r set_r td by blast
next
  assume "length (retailers s) < 2"
  then show "optimizeDistributionRoute L supplierId transporterId s e =
          (Inl (RuntimeError ''Need at least 2 retailers to optimize routes''), s, e)"
    by (simp add: optimizeDistributionRoute_def)
next
  assume "2 \<le> length (retailers s) \<and> findSupplier s supplierId = Some sidx \<and>
       findTransporter s transporterId = Some tidx \<and> chain (blockchain s) \<noteq> []"
  then show "fst (optimizeDistributionRoute L supplierId transporterId s e) =
             Inr (route_of (suppliers s ! sidx) (retailers s),
                  totalDistance_of (suppliers s ! sidx) (retailers s)
                    (route_of (suppliers s ! sidx) (retailers s)))"
    by (intro optimizeDistributionRoute_returns) blast+
qed

theorem C9_route_optimizer_witness:
  "2 \<le> length (retailers example_sys3)
   \<and> list_all (\<lambda>r. \<bar>r_latitude r\<bar> \<le> 90 \<and> \<bar>r_longitude r\<bar> \<le> 180) (retailers example_sys3)
   \<and> \<bar>s_latitude (suppliers example_sys3 ! 0)\<bar> \<le> 90 \<and> \<bar>s_longitude (suppliers example_sys3 ! 0)\<bar> \<le> 180
   \<and> distinct (map r_id (retailers example_sys3))
   \<and> route_of (suppliers example_sys3 ! 0) (retailers example_sys3) = [3, 1, 2]
   \<and> totalDistance_of (suppliers example_sys3 ! 0) (retailers example_sys3) [3, 1, 2] = 2442
   \<and> tour_length (suppliers example_sys3 ! 0) (retailers example_sys3) [2, 0, 1] = 2442
   \<and> length (retailers example_sys) < 2
   \<and> optimizeDistributionRoute example_lib 1 1 example_sys example_env =
        (Inl (RuntimeError ''Need at least 2 retailers to optimize routes''), example_sys, example_env)
   \<and> findSupplier example_sys3 1 = Some 0 \<and> findTransporter example_sys3 1 = Some 0
   \<and> chain (blockchain example_sys3) \<noteq> []
   \<and> fst (optimizeDistributionRoute example_lib 1 1 example_sys3 example_env) =
        Inr ([3, 1, 2], 2442)"
proof -
  let ?rs = "retailers example_sys3"
  let ?sup = "suppliers example_sys3 ! 0"
  have len: "length ?rs = 3" by (simp add: example_defs)
  have h: "2 \<le> length ?rs \<and>
    (\<forall>r\<in>set ?rs. \<bar>r_latitude r\<bar> \<le> 90 \<and> \<bar>r_longitude r\<bar> \<le> 180) \<and>
    \<bar>s_latitude ?sup\<bar> \<le> 90 \<and> \<bar>s_longitude ?sup\<bar> \<le> 180"
    by (simp add: example_defs)
  have hl: "list_all (\<lambda>r. \<bar>r_latitude r\<bar> \<le> 90 \<and> \<bar>r_longitude r\<bar> \<le> 180) ?rs"
    by (simp add: example_defs)
  have ids: "distinct (map r_id ?rs)" by (simp add: example_defs)
  have h2: "length (retailers example_sys) < 2" by (simp add: example_defs)
  have h3: "findSupplier example_sys3 1 = Some 0" "findTransporter example_sys3 1 = Some 0"
    "chain (blockchain example_sys3) \<noteq> []"
    by (simp_all add: example_defs findSupplier_def findTransporter_def)
  note inst = C9_route_optimizer [where rs = ?rs and supplier = ?sup and L = example_lib
      and supplierId = 1 and transporterId = 1 and e = example_env]
  from inst [where s = example_sys] h ids obtain stops where st:
    "route_of ?sup ?rs = map (\<lambda>i. r_id (?rs ! i)) stops"
    "distinct stops" "set stops = {0..<length ?rs}"
    "nearest_to_supplier ?sup ?rs (stops ! 0)"
    "\<forall>p. 0 < p \<and> p < length ?rs \<longrightarrow>
        nearest_unvisited ?rs (take p stops) (stops ! (p - 1)) (stops ! p)"
    "totalDistance_of ?sup ?rs (route_of ?sup ?rs) = tour_length ?sup ?rs stops"
    by blast
  have ls: "length stops = 3" using st(2,3) len distinct_card [of stops] by simp
  have three: "x = 0 \<or> x = 1 \<or> x = 2" if "x < 3" for x :: nat using that by linarith
  have sd: "supplier_to_retailer ?sup ?rs 0 = 555" "supplier_to_retailer ?sup ?rs 1 = 1110"
    "supplier_to_retailer ?sup ?rs 2 = 333"
    by (simp_all add: supplier_to_retailer_def planar_km_def example_defs sqrt_25 sqrt_100 sqrt_9)
  have rd: "retailerDistance ?rs 2 0 = 444" "retailerDistance ?rs 0 1 = 555"
    by (simp_all add: retailerDistance_def planar_km_def example_defs sqrt_25 sqrt_16)
  have "4 < sqrt 73" by (rule real_less_rsqrt) simp
  then have rd21: "444 < retailerDistance ?rs 2 1"
    by (simp add: retailerDistance_def planar_km_def example_defs)
  have rts: "retailer_to_supplier ?sup ?rs 1 = 1110"
    by (simp add: retailer_to_supplier_def planar_km_def example_defs sqrt_100)
  have s0: "stops ! 0 = 2"
  proof -
    from st(4) len have a: "stops ! 0 < 3"
      and b: "supplier_to_retailer ?sup ?rs (stops ! 0) \<le> supplier_to_retailer ?sup ?rs 2"
      unfolding nearest_to_supplier_def by simp_all
    from three [OF a] b sd show ?thesis by auto
  qed
  have t1: "take 1 stops = [2]" using ls s0 by (cases stops) auto
  have s1: "stops ! 1 = 0"
  proof -
    from st(5) [rule_format, of 1] len s0 t1
    have g: "nearest_unvisited ?rs [2] 2 (stops ! 1)" by simp
    then have a: "stops ! 1 < 3" and b: "stops ! 1 \<noteq> 2"
      and c: "retailerDistance ?rs 2 (stops ! 1) \<le> retailerDistance ?rs 2 0"
      unfolding nearest_unvisited_def using len by simp_all
    from three [OF a] b c rd rd21 show ?thesis by auto
  qed
  have s2: "stops ! 2 = 1"
  proof -
    have "stops ! 2 \<in> set stops" using ls by simp
    then have a: "stops ! 2 < 3" using st(3) len by simp
    have "stops ! 2 \<noteq> stops ! 0" "stops ! 2 \<noteq> stops ! 1"
      using st(2) ls by (simp_all add: nth_eq_iff_index_eq)
    with three [OF a] s0 s1 show ?thesis by auto
  qed
  have stops: "stops = [2, 0, 1]"
  proof -
    from ls obtain a b c where abc: "stops = [a, b, c]"
      by (auto simp: numeral_3_eq_3 length_Suc_conv)
    from s0 s1 s2 show ?thesis unfolding abc by simp
  qed
  have route: "route_of ?sup ?rs = [3, 1, 2]"
    unfolding st(1) stops by (simp add: example_defs)
  have tour: "tour_length ?sup ?rs [2, 0, 1] = 2442"
    using sd rd rts by (simp add: tour_length_def upt_0_2)
  have total: "totalDistance_of ?sup ?rs [3, 1, 2] = 2442"
    using st(6) unfolding route stops tour .
  from inst [where s = example_sys] h2
  have c: "optimizeDistributionRoute example_lib 1 1 example_sys example_env =
        (Inl (RuntimeError ''Need at least 2 retailers to optimize routes''), example_sys, example_env)"
    by blast
  from inst [where s = example_sys3 and sidx = 0 and tidx = 0] h h3
  have "fst (optimizeDistributionRoute example_lib 1 1 example_sys3 example_env) =
        Inr (route_of ?sup ?rs, totalDistance_of ?sup ?rs (route_of ?sup ?rs))"
    by blast
  then have d: "fst (optimizeDistributionRoute example_lib 1 1 example_sys3 example_env) =
        Inr ([3, 1, 2], 2442)"
    unfolding route total .
  show ?thesis
    apply (intro conjI)
    using h apply blast
      apply (rule hl)
    using h apply blast
    using h apply blast
    apply (rule ids)
    apply (rule route)
    apply (rule total)
    apply (rule tour)
    apply (rule h2)
    apply (rule c)
    apply (rule h3(1))
    apply (rule h3(2))
    apply (rule h3(3))
    apply (rule d)
    done
qed





end
